theory Spec2Isabelle
  imports
    Main
    "HOL-Library.Char_ord"
    "HOL-Library.List_Lexorder"
    "HOL-Library.Word"
begin

section \<open>JavaScript values the model needs\<close>

text \<open>
  A thrown exception is a value: the constructor is the JavaScript error class, the
  string is its message. The three messages the sources throw themselves get names
  that follow the error taxonomy of the specification.
\<close>

datatype js_error = Error string | TypeError string | RangeError string

definition SchemaNotFound :: "string \<Rightarrow> js_error" where
  "SchemaNotFound rootType =
     Error (''Type '' @ [CHR 0x27] @ rootType @ [CHR 0x27] @ '' does not exist in EIP712_TYPES'')"

section \<open>utils/eip712.ts: the schema registry\<close>

record TypeField =
  name :: string
  type :: string

definition MetadataEntry_fields :: "TypeField list" where
  "MetadataEntry_fields =
     [\<lparr>name = ''key'', type = ''string''\<rparr>,
      \<lparr>name = ''value'', type = ''string''\<rparr>]"

definition CreateDataSet_fields :: "TypeField list" where
  "CreateDataSet_fields =
     [\<lparr>name = ''clientDataSetId'', type = ''uint256''\<rparr>,
      \<lparr>name = ''payee'', type = ''address''\<rparr>,
      \<lparr>name = ''metadata'', type = ''MetadataEntry[]''\<rparr>]"

definition Cid_fields :: "TypeField list" where
  "Cid_fields = [\<lparr>name = ''data'', type = ''bytes''\<rparr>]"

definition PieceMetadata_fields :: "TypeField list" where
  "PieceMetadata_fields =
     [\<lparr>name = ''pieceIndex'', type = ''uint256''\<rparr>,
      \<lparr>name = ''metadata'', type = ''MetadataEntry[]''\<rparr>]"

definition AddPieces_fields :: "TypeField list" where
  "AddPieces_fields =
     [\<lparr>name = ''clientDataSetId'', type = ''uint256''\<rparr>,
      \<lparr>name = ''firstAdded'', type = ''uint256''\<rparr>,
      \<lparr>name = ''pieceData'', type = ''Cid[]''\<rparr>,
      \<lparr>name = ''pieceMetadata'', type = ''PieceMetadata[]''\<rparr>]"

definition SchedulePieceRemovals_fields :: "TypeField list" where
  "SchedulePieceRemovals_fields =
     [\<lparr>name = ''clientDataSetId'', type = ''uint256''\<rparr>,
      \<lparr>name = ''pieceIds'', type = ''uint256[]''\<rparr>]"

definition DeleteDataSet_fields :: "TypeField list" where
  "DeleteDataSet_fields = [\<lparr>name = ''clientDataSetId'', type = ''uint256''\<rparr>]"

text \<open>
  The object literal \<open>EIP712_TYPES\<close>: its own properties, in the order the source
  writes them.
\<close>

definition EIP712_TYPES :: "(string \<times> TypeField list) list" where
  "EIP712_TYPES =
     [(''MetadataEntry'', MetadataEntry_fields),
      (''CreateDataSet'', CreateDataSet_fields),
      (''Cid'', Cid_fields),
      (''PieceMetadata'', PieceMetadata_fields),
      (''AddPieces'', AddPieces_fields),
      (''SchedulePieceRemovals'', SchedulePieceRemovals_fields),
      (''DeleteDataSet'', DeleteDataSet_fields)]"

text \<open>
  \<open>EIP712_TYPES\<close> is a plain object literal, so its prototype is \<open>Object.prototype\<close>.
  The operator \<open>in\<close> and the property read \<open>EIP712_TYPES[k]\<close> both follow the
  prototype chain: they also see the members every plain object inherits. None of
  those members is an array of fields.
\<close>

definition Object_prototype_keys :: "string list" where
  "Object_prototype_keys =
     [''constructor'', ''hasOwnProperty'', ''isPrototypeOf'', ''propertyIsEnumerable'',
      ''toLocaleString'', ''toString'', ''valueOf'', ''__proto__'',
      ''__defineGetter__'', ''__defineSetter__'', ''__lookupGetter__'', ''__lookupSetter__'']"

datatype js_property = Fields "TypeField list" | Inherited | Undefined

definition own_keys :: "string list" where
  "own_keys = map fst EIP712_TYPES"

definition in_EIP712_TYPES :: "string \<Rightarrow> bool" where
  "in_EIP712_TYPES k \<longleftrightarrow> k \<in> set own_keys \<or> k \<in> set Object_prototype_keys"

definition get_EIP712_TYPES :: "string \<Rightarrow> js_property" where
  "get_EIP712_TYPES k =
     (case map_of EIP712_TYPES k of
        Some args \<Rightarrow> Fields args
      | None \<Rightarrow> if k \<in> set Object_prototype_keys then Inherited else Undefined)"

section \<open>utils/eip712.ts: getEIP712TypeString\<close>

text \<open>
  \<open>typeMap\<close> is a JavaScript \<open>Map\<close>: it iterates in insertion order, and \<open>set\<close> on a
  key that is present replaces the value in place.
\<close>

type_synonym typeMap = "(string \<times> string) list"

definition typeMap_has :: "typeMap \<Rightarrow> string \<Rightarrow> bool" where
  "typeMap_has m k \<longleftrightarrow> k \<in> set (map fst m)"

definition typeMap_get :: "typeMap \<Rightarrow> string \<Rightarrow> string option" where
  "typeMap_get m k = map_of m k"

fun typeMap_set :: "typeMap \<Rightarrow> string \<Rightarrow> string \<Rightarrow> typeMap" where
  "typeMap_set [] k v = [(k, v)]"
| "typeMap_set ((k', v') # m) k v =
     (if k' = k then (k, v) # m else (k', v') # typeMap_set m k v)"

text \<open>\<open>Array.prototype.join\<close> on strings.\<close>

fun join :: "string \<Rightarrow> string list \<Rightarrow> string" where
  "join sep [] = []"
| "join sep [x] = x"
| "join sep (x # y # ys) = x @ sep @ join sep (y # ys)"

text \<open>\<open>arg.type.endsWith('[]') ? arg.type.slice(0, -2) : arg.type\<close>\<close>

definition endsWith :: "string \<Rightarrow> string \<Rightarrow> bool" where
  "endsWith s suffix \<longleftrightarrow>
     length suffix \<le> length s \<and> drop (length s - length suffix) s = suffix"

definition baseType :: "TypeField \<Rightarrow> string" where
  "baseType arg =
     (if endsWith (type arg) ''[]'' then take (length (type arg) - 2) (type arg)
      else type arg)"

definition argStrings :: "TypeField list \<Rightarrow> string" where
  "argStrings args = join '','' (map (\<lambda>arg. type arg @ '' '' @ name arg) args)"

text \<open>
  The closure \<open>collectType\<close> mutates \<open>typeMap\<close>; the model passes the map in and
  returns it. \<open>collectArgs\<close> is the loop \<open>for (const arg of args)\<close> of its body.
  Where the property read yields an inherited member, \<open>args.map\<close> is not a function
  and the call throws a \<open>TypeError\<close>. The read cannot yield \<open>undefined\<close> behind the
  check with \<open>in\<close>; the model gives that case the error it would raise.
\<close>

function collectType :: "string \<Rightarrow> typeMap \<Rightarrow> js_error + typeMap"
  and collectArgs :: "TypeField list \<Rightarrow> typeMap \<Rightarrow> js_error + typeMap"
where
  "collectType typeName typeMap =
     (if typeMap_has typeMap typeName \<or> \<not> in_EIP712_TYPES typeName then Inr typeMap
      else case get_EIP712_TYPES typeName of
             Fields args \<Rightarrow>
               collectArgs args
                 (typeMap_set typeMap typeName (typeName @ ''('' @ argStrings args @ '')''))
           | Inherited \<Rightarrow> Inl (TypeError ''args.map is not a function'')
           | Undefined \<Rightarrow>
               Inl (TypeError ''Cannot read properties of undefined (reading map)''))"
| "collectArgs [] typeMap = Inr typeMap"
| "collectArgs (arg # rest) typeMap =
     (case collectType (baseType arg) typeMap of
        Inl e \<Rightarrow> Inl e
      | Inr typeMap' \<Rightarrow> collectArgs rest typeMap')"
  by pat_completeness auto

subsection \<open>Termination of the collection\<close>

text \<open>
  The source has no recursion guard: a call returns because \<open>typeMap\<close> only grows
  and every call that recurses adds an own key of the registry that was not in it.
\<close>

definition visited :: "typeMap \<Rightarrow> string set" where
  "visited m = set (map fst m)"

definition unvisited :: "typeMap \<Rightarrow> nat" where
  "unvisited m = card (set own_keys - visited m)"

lemma visited_typeMap_set: "visited (typeMap_set m k v) = insert k (visited m)"
  unfolding visited_def by (induction m k v rule: typeMap_set.induct) auto

lemma collect_visited_mono_dom:
  "collectType_collectArgs_dom (Inl (typeName, m)) \<Longrightarrow>
     collectType typeName m = Inr m' \<Longrightarrow> visited m \<subseteq> visited m'"
  "collectType_collectArgs_dom (Inr (args, m)) \<Longrightarrow>
     collectArgs args m = Inr m' \<Longrightarrow> visited m \<subseteq> visited m'"
proof (induction typeName m and args m arbitrary: m' and m'
    rule: collectType_collectArgs.pinduct)
  case (1 typeName typeMap)
  then show ?case
    by (auto simp: collectType.psimps visited_typeMap_set
        split: if_splits js_property.splits)
next
  case (2 typeMap)
  then show ?case by (simp add: collectArgs.psimps)
next
  case (3 arg rest typeMap)
  then show ?case
    by (auto simp: collectArgs.psimps split: sum.splits)
qed

lemma unvisited_mono: "visited m \<subseteq> visited m' \<Longrightarrow> unvisited m' \<le> unvisited m"
  unfolding unvisited_def by (intro card_mono) auto

lemma get_Fields_own: "get_EIP712_TYPES k = Fields args \<Longrightarrow> k \<in> set own_keys"
  by (auto simp: get_EIP712_TYPES_def own_keys_def
      split: option.splits if_splits dest: map_of_SomeD intro: rev_image_eqI)

lemma unvisited_typeMap_set:
  "k \<in> set own_keys \<Longrightarrow> \<not> typeMap_has m k \<Longrightarrow> unvisited (typeMap_set m k v) < unvisited m"
  unfolding unvisited_def visited_typeMap_set typeMap_has_def
  by (intro psubset_card_mono) (auto simp: visited_def)

termination collectType
proof (relation
    "measures [\<lambda>x. case x of Inl (n, m) \<Rightarrow> unvisited m | Inr (args, m) \<Rightarrow> unvisited m,
               \<lambda>x. case x of Inl (n, m) \<Rightarrow> 0 | Inr (args, m) \<Rightarrow> Suc (length args)]",
    goal_cases)
  case 1
  show ?case by simp
next
  case (2 typeName typeMap args)
  then show ?case by (simp add: unvisited_typeMap_set get_Fields_own)
next
  case (3 arg rest typeMap)
  then show ?case by simp
next
  case (4 arg rest typeMap typeMap')
  then have "unvisited typeMap' \<le> unvisited typeMap"
    by (intro unvisited_mono collect_visited_mono_dom(1)[of "baseType arg" typeMap typeMap'])
      auto
  then show ?case by auto
qed

subsection \<open>Sorting and the result string\<close>

text \<open>
  \<open>a.localeCompare(b)\<close> is the host's collation. The only names that ever reach the
  sort are keys of \<open>EIP712_TYPES\<close>: ASCII names whose first letters are capitals, on
  which the collation agrees with the order of the code units. The model uses that
  order. \<open>Array.prototype.sort\<close> is stable; \<open>js_sort\<close> is the insertion sort that
  places an element behind every element it does not precede.
\<close>

definition localeCompare :: "string \<Rightarrow> string \<Rightarrow> int" where
  "localeCompare a b = (if a < b then - 1 else if a = b then 0 else 1)"

fun insert_sorted :: "('a \<Rightarrow> 'a \<Rightarrow> int) \<Rightarrow> 'a \<Rightarrow> 'a list \<Rightarrow> 'a list" where
  "insert_sorted cmp x [] = [x]"
| "insert_sorted cmp x (y # ys) =
     (if cmp x y < 0 then x # y # ys else y # insert_sorted cmp x ys)"

definition js_sort :: "('a \<Rightarrow> 'a \<Rightarrow> int) \<Rightarrow> 'a list \<Rightarrow> 'a list" where
  "js_sort cmp xs = foldl (\<lambda>acc x. insert_sorted cmp x acc) [] xs"

definition otherStrings :: "string \<Rightarrow> typeMap \<Rightarrow> string" where
  "otherStrings rootType typeMap =
     join []
       (map snd
         (js_sort (\<lambda>(a, _) (b, _). localeCompare a b)
           (filter (\<lambda>(name, _). name \<noteq> rootType) typeMap)))"

definition getEIP712TypeString :: "string \<Rightarrow> js_error + string" where
  "getEIP712TypeString rootType =
     (if \<not> in_EIP712_TYPES rootType then Inl (SchemaNotFound rootType)
      else case collectType rootType [] of
             Inl e \<Rightarrow> Inl e
           | Inr typeMap \<Rightarrow>
               (case typeMap_get typeMap rootType of
                  None \<Rightarrow> Inl (Error (''Failed to build type string for '' @ rootType))
                | Some rootString \<Rightarrow>
                    if rootString = []
                    then Inl (Error (''Failed to build type string for '' @ rootType))
                    else Inr (rootString @ otherStrings rootType typeMap)))"

section \<open>utils/eip712.ts: getEIP712TypeString on the state it runs in\<close>

text \<open>
  A call reads two things that are not its argument: the exported object
  \<open>EIP712_TYPES\<close>, whose properties every importer can change, and the collation of the
  host behind \<open>localeCompare\<close>. It writes to one object, the \<open>Map\<close> it creates. This
  section models the call again with all of that explicit: the store holds the own
  properties of the object, the collation, and the \<open>Map\<close> objects by address, with the
  next free address. The lookups are those of the registry above, for whatever the
  object holds.
\<close>

record store =
  EIP712_TYPES_object :: "(string \<times> TypeField list) list"
  collation :: "string \<Rightarrow> string \<Rightarrow> int"
  Maps :: "nat \<Rightarrow> typeMap"
  next_Map :: nat

text \<open>\<open>k in obj\<close> and \<open>obj[k]\<close>, through the prototype as before.\<close>

definition has_property :: "(string \<times> TypeField list) list \<Rightarrow> string \<Rightarrow> bool" where
  "has_property obj k \<longleftrightarrow> k \<in> set (map fst obj) \<or> k \<in> set Object_prototype_keys"

definition get_property :: "(string \<times> TypeField list) list \<Rightarrow> string \<Rightarrow> js_property" where
  "get_property obj k =
     (case map_of obj k of
        Some args \<Rightarrow> Fields args
      | None \<Rightarrow> if k \<in> set Object_prototype_keys then Inherited else Undefined)"

text \<open>\<open>typeMap.set(k, txt)\<close> on the \<open>Map\<close> at address \<open>a\<close>.\<close>

definition Map_set :: "nat \<Rightarrow> string \<Rightarrow> string \<Rightarrow> store \<Rightarrow> store" where
  "Map_set a k txt st = st\<lparr>Maps := (Maps st)(a := typeMap_set (Maps st a) k txt)\<rparr>"

text \<open>
  \<open>collectType\<close> and its loop, on the store: \<open>a\<close> is the address of \<open>typeMap\<close>. A throw
  leaves the store as the writes before it have made it.
\<close>

function collectType_st :: "nat \<Rightarrow> string \<Rightarrow> store \<Rightarrow> js_error option \<times> store"
  and collectArgs_st :: "nat \<Rightarrow> TypeField list \<Rightarrow> store \<Rightarrow> js_error option \<times> store"
where
  "collectType_st a typeName st =
     (if typeMap_has (Maps st a) typeName \<or> \<not> has_property (EIP712_TYPES_object st) typeName
      then (None, st)
      else case get_property (EIP712_TYPES_object st) typeName of
             Fields args \<Rightarrow>
               collectArgs_st a args
                 (Map_set a typeName (typeName @ ''('' @ argStrings args @ '')'') st)
           | Inherited \<Rightarrow> (Some (TypeError ''args.map is not a function''), st)
           | Undefined \<Rightarrow>
               (Some (TypeError ''Cannot read properties of undefined (reading map)''), st))"
| "collectArgs_st a [] st = (None, st)"
| "collectArgs_st a (arg # rest) st =
     (case collectType_st a (baseType arg) st of
        (Some e, st') \<Rightarrow> (Some e, st')
      | (None, st') \<Rightarrow> collectArgs_st a rest st')"
  by pat_completeness auto

text \<open>
  Termination, as for the first model: the object is not written to and the \<open>Map\<close> at
  \<open>a\<close> only grows.
\<close>

definition unvisited_st :: "nat \<Rightarrow> store \<Rightarrow> nat" where
  "unvisited_st a st = card (set (map fst (EIP712_TYPES_object st)) - visited (Maps st a))"

definition grows :: "nat \<Rightarrow> store \<Rightarrow> store \<Rightarrow> bool" where
  "grows a st st' \<longleftrightarrow>
     EIP712_TYPES_object st' = EIP712_TYPES_object st \<and>
     visited (Maps st a) \<subseteq> visited (Maps st' a)"

lemma grows_refl: "grows a st st"
  by (simp add: grows_def)

lemma grows_trans: "grows a st st' \<Longrightarrow> grows a st' st'' \<Longrightarrow> grows a st st''"
  by (auto simp: grows_def)

lemma grows_Map_set: "grows a st (Map_set a k txt st)"
  by (auto simp: grows_def Map_set_def visited_typeMap_set)

lemma collect_st_grows_dom:
  "collectType_st_collectArgs_st_dom (Inl (a, typeName, st)) \<Longrightarrow>
     grows a st (snd (collectType_st a typeName st))"
  "collectType_st_collectArgs_st_dom (Inr (a, args, st)) \<Longrightarrow>
     grows a st (snd (collectArgs_st a args st))"
proof (induction a typeName st and a args st rule: collectType_st_collectArgs_st.pinduct)
  case (1 a typeName st)
  then show ?case
    by (auto simp: collectType_st.psimps grows_refl split: js_property.splits
        intro: grows_trans [OF grows_Map_set])
next
  case (2 a st)
  then show ?case by (simp add: collectArgs_st.psimps grows_refl)
next
  case (3 a arg rest st)
  then show ?case
    by (auto simp: collectArgs_st.psimps split: prod.splits option.splits
        intro: grows_trans)
qed

lemma get_property_Fields: "get_property obj k = Fields args \<Longrightarrow> k \<in> set (map fst obj)"
  by (auto simp: get_property_def split: option.splits if_splits dest: map_of_SomeD
      intro: rev_image_eqI)

lemma unvisited_st_Map_set:
  "k \<in> set (map fst (EIP712_TYPES_object st)) \<Longrightarrow> \<not> typeMap_has (Maps st a) k \<Longrightarrow>
     unvisited_st a (Map_set a k txt st) < unvisited_st a st"
  unfolding unvisited_st_def Map_set_def typeMap_has_def
  by (simp add: visited_typeMap_set) (intro psubset_card_mono; auto simp: visited_def)

lemma unvisited_st_grows: "grows a st st' \<Longrightarrow> unvisited_st a st' \<le> unvisited_st a st"
  unfolding unvisited_st_def grows_def by (auto intro!: card_mono)

termination collectType_st
proof (relation
    "measures [\<lambda>x. case x of Inl (a, n, st) \<Rightarrow> unvisited_st a st
                              | Inr (a, args, st) \<Rightarrow> unvisited_st a st,
               \<lambda>x. case x of Inl (a, n, st) \<Rightarrow> 0 | Inr (a, args, st) \<Rightarrow> Suc (length args)]",
    goal_cases)
  case 1
  show ?case by simp
next
  case (2 a typeName st args)
  then have "unvisited_st a (Map_set a typeName (typeName @ ''('' @ argStrings args @ '')'') st)
      < unvisited_st a st"
    by (intro unvisited_st_Map_set get_property_Fields [of _ _ args]) auto
  then show ?case by simp
next
  case (3 a arg rest st)
  then show ?case by simp
next
  case (4 a arg rest st x st')
  then have "snd (collectType_st a (baseType arg) st) = st'"
    by (metis snd_conv)
  with 4 have "grows a st st'"
    using collect_st_grows_dom(1) [of a "baseType arg" st] by simp
  then have "unvisited_st a st' \<le> unvisited_st a st"
    by (rule unvisited_st_grows)
  then show ?case by auto
qed

declare collectType_st.simps [simp del]

text \<open>The sort with the collation of the store.\<close>

definition otherStrings_by :: "(string \<Rightarrow> string \<Rightarrow> int) \<Rightarrow> string \<Rightarrow> typeMap \<Rightarrow> string" where
  "otherStrings_by cmp rootType typeMap =
     join []
       (map snd
         (js_sort (\<lambda>(a, _) (b, _). cmp a b)
           (filter (\<lambda>(name, _). name \<noteq> rootType) typeMap)))"

text \<open>
  The call: \<open>new Map()\<close> takes the next free address; the result comes with the store
  the call leaves.
\<close>

definition getEIP712TypeString_st :: "string \<Rightarrow> store \<Rightarrow> (js_error + string) \<times> store" where
  "getEIP712TypeString_st rootType st =
     (if \<not> has_property (EIP712_TYPES_object st) rootType
      then (Inl (SchemaNotFound rootType), st)
      else
        let a = next_Map st;
            st1 = st\<lparr>Maps := (Maps st)(a := []), next_Map := Suc a\<rparr>
        in case collectType_st a rootType st1 of
             (Some e, st2) \<Rightarrow> (Inl e, st2)
           | (None, st2) \<Rightarrow>
               (case typeMap_get (Maps st2 a) rootType of
                  None \<Rightarrow> (Inl (Error (''Failed to build type string for '' @ rootType)), st2)
                | Some rootString \<Rightarrow>
                    if rootString = []
                    then (Inl (Error (''Failed to build type string for '' @ rootType)), st2)
                    else (Inr (rootString
                                @ otherStrings_by (collation st2) rootType (Maps st2 a)),
                          st2)))"

section \<open>pdp/auth.ts: values, signers and the host\<close>

text \<open>
  An argument of type \<open>number | bigint\<close>: a number with an integer value, a number
  without one (a fraction, \<open>NaN\<close>, an infinity), or a bigint. \<open>BigInt(x)\<close> throws a
  \<open>RangeError\<close> on the second kind.
\<close>

datatype js_numeric = Number_int int | Number_nonint | BigInt_val int

definition BigInt :: "js_numeric \<Rightarrow> js_error + int" where
  "BigInt x =
     (case x of
        Number_int i \<Rightarrow> Inr i
      | Number_nonint \<Rightarrow>
          Inl (RangeError ''The number cannot be converted to a BigInt because it is not an integer'')
      | BigInt_val i \<Rightarrow> Inr i)"

type_synonym bytes = "8 word list"

text \<open>The values that object literals of the source hold.\<close>

datatype js_value =
    JNumber int
  | JBigInt int
  | JString string
  | JBytes bytes
  | JArray "js_value list"
  | JObject "(string \<times> js_value) list"

record MetadataEntry =
  key :: string
  "value" :: string

definition MetadataEntry_value :: "MetadataEntry \<Rightarrow> js_value" where
  "MetadataEntry_value e = JObject [(''key'', JString (key e)), (''value'', JString (value e))]"

record PieceCID =
  bytes :: bytes

datatype piece_input = Piece_string string | Piece_CID PieceCID

record AuthSignature =
  signature :: string
  v :: int
  r :: string
  s :: string
  signedData :: string

record TypedDataDomain =
  domain_name :: string
  version :: string
  chainId :: int
  verifyingContract :: string

type_synonym types = "(string \<times> TypeField list) list"

text \<open>
  What the code asks of a provider object: whether it has the property
  \<open>_eip1193Provider\<close> (and whether the value of that property has \<open>request\<close>),
  whether it has \<open>request\<close>, whether it has \<open>send\<close>.
\<close>

record provider =
  eip1193Provider :: "bool option"
  has_request :: bool
  has_send :: bool

text \<open>
  What the code asks of a signer object: the name of its constructor, whether it has
  \<open>signingKey\<close>, its \<open>provider\<close> (\<open>None\<close> for \<open>null\<close>), and its property \<open>signer\<close>
  when it has one.
\<close>

datatype signer =
  Signer (constructor_name: string) (has_signingKey: bool) (provider_of: "provider option")
    (signer_property: "signer option")

record PDPAuthHelper =
  this_signer :: signer
  this_payer :: signer
  this_domain :: TypedDataDomain

text \<open>The document \<open>typedData\<close> that \<open>signWithMetaMask\<close> serialises for the agent.\<close>

record typedData =
  td_types :: types
  td_primaryType :: string
  td_domain :: TypedDataDomain
  td_message :: js_value

text \<open>A request for a signature that leaves the helper.\<close>

datatype sign_request =
    Call_signTypedData signer TypedDataDomain types js_value
  | Call_request string string typedData
  | Call_send string string typedData

text \<open>
  The collaborators that are not code of this repository: the signing key, the agent
  behind the provider, and the functions of \<open>ethers\<close>, of the piece module and of the
  runtime that the helper calls. Each may throw.
\<close>

record host =
  window_ethereum :: bool
  getAddress :: "signer \<Rightarrow> js_error + string"
  signTypedData :: "signer \<Rightarrow> TypedDataDomain \<Rightarrow> types \<Rightarrow> js_value \<Rightarrow> js_error + string"
  request :: "string \<Rightarrow> string \<Rightarrow> typedData \<Rightarrow> js_error + string"
  send :: "string \<Rightarrow> string \<Rightarrow> typedData \<Rightarrow> js_error + string"
  Signature_from :: "string \<Rightarrow> js_error + (int \<times> string \<times> string)"
  TypedDataEncoder_hash :: "TypedDataDomain \<Rightarrow> types \<Rightarrow> js_value \<Rightarrow> js_error + string"
  asPieceCID :: "string \<Rightarrow> PieceCID option"
  toString :: "js_numeric \<Rightarrow> string"

text \<open>\<open>ethers.hexlify\<close> of a \<open>Uint8Array\<close>.\<close>

definition hex_digit :: "nat \<Rightarrow> char" where
  "hex_digit n = ''0123456789abcdef'' ! (n mod 16)"

definition hexlify :: "bytes \<Rightarrow> string" where
  "hexlify bs = ''0x'' @ concat (map (\<lambda>b. [hex_digit (unat b div 16), hex_digit (unat b)]) bs)"

text \<open>
  A computation of the helper returns a value or throws, and leaves the list of the
  signature requests it has made.
\<close>

type_synonym 'a eff = "(js_error + 'a) \<times> sign_request list"

definition lift :: "js_error + 'a \<Rightarrow> 'a eff" where
  "lift x = (x, [])"

definition bind :: "'a eff \<Rightarrow> ('a \<Rightarrow> 'b eff) \<Rightarrow> 'b eff" where
  "bind m f =
     (case m of
        (Inl e, reqs) \<Rightarrow> (Inl e, reqs)
      | (Inr x, reqs) \<Rightarrow> (case f x of (y, reqs') \<Rightarrow> (y, reqs @ reqs')))"

section \<open>pdp/auth.ts: choosing the path and signing\<close>

definition getUnderlyingSigner :: "PDPAuthHelper \<Rightarrow> signer" where
  "getUnderlyingSigner this =
     (case signer_property (this_signer this) of
        Some inner \<Rightarrow>
          if constructor_name (this_signer this) = ''NonceManager'' then inner
          else this_signer this
      | None \<Rightarrow> this_signer this)"

text \<open>The writes to the console are left out; nothing in the body throws.\<close>

definition isMetaMaskSigner :: "host \<Rightarrow> PDPAuthHelper \<Rightarrow> bool" where
  "isMetaMaskSigner h this =
     (let actualSigner = getUnderlyingSigner this in
      if has_signingKey actualSigner then False
      else case provider_of actualSigner of
             None \<Rightarrow> False
           | Some p \<Rightarrow>
               if eip1193Provider p \<noteq> None then True
               else if has_signingKey actualSigner then False
               else if window_ethereum h then True
               else if (has_send p \<or> has_request p) \<and> \<not> has_signingKey actualSigner then True
               else False)"

definition EIP712Domain_fields :: "TypeField list" where
  "EIP712Domain_fields =
     [\<lparr>name = ''name'', type = ''string''\<rparr>,
      \<lparr>name = ''version'', type = ''string''\<rparr>,
      \<lparr>name = ''chainId'', type = ''uint256''\<rparr>,
      \<lparr>name = ''verifyingContract'', type = ''address''\<rparr>]"

text \<open>The loop that picks \<open>primaryType\<close>.\<close>

fun primaryType_of :: "string list \<Rightarrow> string" where
  "primaryType_of [] = []"
| "primaryType_of (typeName # rest) =
     (if typeName \<noteq> ''Cid'' \<and> typeName \<noteq> ''PieceData'' then typeName
      else primaryType_of rest)"

definition signWithMetaMask :: "host \<Rightarrow> PDPAuthHelper \<Rightarrow> types \<Rightarrow> js_value \<Rightarrow> string eff" where
  "signWithMetaMask h this tys val =
     (case provider_of (this_signer this) of
        None \<Rightarrow> lift (Inl (Error ''No provider available''))
      | Some p \<Rightarrow>
          bind (lift (getAddress h (this_signer this))) (\<lambda>signerAddress.
            let doc = \<lparr>td_types = (''EIP712Domain'', EIP712Domain_fields) # tys,
                       td_primaryType = primaryType_of (map fst tys),
                       td_domain = this_domain this,
                       td_message = val\<rparr>;
                via_request = (case eip1193Provider p of
                                 Some inner_has_request \<Rightarrow> inner_has_request
                               | None \<Rightarrow> has_request p)
            in if via_request
               then (request h ''eth_signTypedData_v4'' signerAddress doc,
                     [Call_request ''eth_signTypedData_v4'' signerAddress doc])
               else if has_send p
               then (send h ''eth_signTypedData_v4'' signerAddress doc,
                     [Call_send ''eth_signTypedData_v4'' signerAddress doc])
               else lift (Inl (TypeError ''provider.send is not a function''))))"

text \<open>
  \<open>actualSigner.signTypedData(this.domain, types, value)\<close>, the call of the branch for
  a key that signs locally.
\<close>

definition signLocally :: "host \<Rightarrow> PDPAuthHelper \<Rightarrow> types \<Rightarrow> js_value \<Rightarrow> string eff" where
  "signLocally h this tys val =
     (let actualSigner = getUnderlyingSigner this in
      (signTypedData h actualSigner (this_domain this) tys val,
       [Call_signTypedData actualSigner (this_domain this) tys val]))"

text \<open>
  The end that the four signing functions share: \<open>ethers.Signature.from\<close>, then the
  hash of the value object with bigint fields, then the result object. The value object
  is built when the hash is asked for, so its conversions may throw here.
\<close>

definition withComponents ::
  "host \<Rightarrow> PDPAuthHelper \<Rightarrow> types \<Rightarrow> js_error + js_value \<Rightarrow> string \<Rightarrow> AuthSignature eff" where
  "withComponents h this tys hashed sig_text =
     bind (lift (Signature_from h sig_text)) (\<lambda>(sig_v, sig_r, sig_s).
     bind (lift hashed) (\<lambda>val.
     bind (lift (TypedDataEncoder_hash h (this_domain this) tys val)) (\<lambda>digest.
       lift (Inr \<lparr>signature = sig_text, v = sig_v, r = sig_r, s = sig_s,
                   signedData = digest\<rparr>))))"

section \<open>pdp/auth.ts: the four signing functions\<close>

text \<open>Sequencing of steps that may throw, and \<open>Array.prototype.map\<close> with such a step.\<close>

definition bindE :: "js_error + 'a \<Rightarrow> ('a \<Rightarrow> js_error + 'b) \<Rightarrow> js_error + 'b" where
  "bindE m f = (case m of Inl e \<Rightarrow> Inl e | Inr x \<Rightarrow> f x)"

fun mapE :: "('a \<Rightarrow> js_error + 'b) \<Rightarrow> 'a list \<Rightarrow> js_error + 'b list" where
  "mapE f [] = Inr []"
| "mapE f (x # xs) = bindE (f x) (\<lambda>y. bindE (mapE f xs) (\<lambda>ys. Inr (y # ys)))"

subsection \<open>signCreateDataSet\<close>



subsection \<open>signAddPieces\<close>

definition InvalidArgument :: js_error where
  "InvalidArgument = Error ''metadata length must match pieceDataArray length''"

definition InvalidPieceIdentifier :: js_error where
  "InvalidPieceIdentifier = Error ''Invalid PieceCID: null''"

record Cid =
  data :: bytes

record PieceMetadata =
  pieceIndex :: nat
  metadata :: "MetadataEntry list"

text \<open>
  The first statement of the function: an omitted argument takes the default \<open>[]\<close>; a
  metadata array of length 0 is replaced by \<open>Array(pieceDataArray.length).fill([])\<close>;
  any other length must be the number of pieces.
\<close>

definition metadata_for :: "MetadataEntry list list option \<Rightarrow> nat \<Rightarrow> js_error + MetadataEntry list list" where
  "metadata_for metadata_arg n =
     (let md = (case metadata_arg of None \<Rightarrow> [] | Some m \<Rightarrow> m)
      in if length md = 0 then Inr (replicate n [])
         else if length md \<noteq> n then Inl InvalidArgument
         else Inr md)"

text \<open>
  The loop over \<open>pieceDataArray\<close>: \<open>i\<close> is the index of the head of the pieces that are
  left, \<open>formattedPieceData\<close> and \<open>pieceMetadata\<close> are the arrays pushed to so far.
\<close>

fun formatPieces ::
  "host \<Rightarrow> piece_input list \<Rightarrow> MetadataEntry list list \<Rightarrow> nat \<Rightarrow> Cid list
     \<Rightarrow> PieceMetadata list \<Rightarrow> js_error + (Cid list \<times> PieceMetadata list)" where
  "formatPieces h [] md i formattedPieceData pieceMetadata =
     Inr (formattedPieceData, pieceMetadata)"
| "formatPieces h (piece # rest) md i formattedPieceData pieceMetadata =
     (case (case piece of Piece_string str \<Rightarrow> asPieceCID h str | Piece_CID c \<Rightarrow> Some c) of
        None \<Rightarrow> Inl InvalidPieceIdentifier
      | Some pieceCid \<Rightarrow>
          formatPieces h rest md (i + 1)
            (formattedPieceData @ [\<lparr>data = bytes pieceCid\<rparr>])
            (pieceMetadata @ [\<lparr>pieceIndex = i, metadata = md ! i\<rparr>]))"

text \<open>The payload of \<open>AddPieces\<close>: everything the function builds before it signs.\<close>

definition AddPieces_payload ::
  "host \<Rightarrow> piece_input list \<Rightarrow> MetadataEntry list list option
     \<Rightarrow> js_error + (Cid list \<times> PieceMetadata list)" where
  "AddPieces_payload h pieceDataArray metadata_arg =
     bindE (metadata_for metadata_arg (length pieceDataArray)) (\<lambda>md.
       formatPieces h pieceDataArray md 0 [] [])"

definition AddPieces_types :: types where
  "AddPieces_types =
     [(''AddPieces'', AddPieces_fields), (''Cid'', Cid_fields),
      (''PieceMetadata'', PieceMetadata_fields), (''MetadataEntry'', MetadataEntry_fields)]"

definition PieceMetadata_value :: "PieceMetadata \<Rightarrow> js_value" where
  "PieceMetadata_value pm =
     JObject [(''pieceIndex'', JNumber (int (pieceIndex pm))),
              (''metadata'', JArray (map MetadataEntry_value (metadata pm)))]"

definition signAddPieces ::
  "host \<Rightarrow> PDPAuthHelper \<Rightarrow> js_numeric \<Rightarrow> js_numeric \<Rightarrow> piece_input list
     \<Rightarrow> MetadataEntry list list option \<Rightarrow> AuthSignature eff" where
  "signAddPieces h this clientDataSetId firstPieceId pieceDataArray metadata_arg =
     bind (lift (AddPieces_payload h pieceDataArray metadata_arg))
       (\<lambda>(formattedPieceData, pieceMetadata).
          let useMetaMask = isMetaMaskSigner h this
          in bind
               (if useMetaMask
                then signWithMetaMask h this AddPieces_types
                       (JObject
                         [(''clientDataSetId'', JString (toString h clientDataSetId)),
                          (''firstAdded'', JString (toString h firstPieceId)),
                          (''pieceData'',
                             JArray (map (\<lambda>item. JObject [(''data'', JString (hexlify (data item)))])
                                       formattedPieceData)),
                          (''pieceMetadata'', JArray (map PieceMetadata_value pieceMetadata))])
                else bind (lift (BigInt clientDataSetId)) (\<lambda>n.
                     bind (lift (BigInt firstPieceId)) (\<lambda>k.
                       signLocally h this AddPieces_types
                         (JObject
                           [(''clientDataSetId'', JBigInt n),
                            (''firstAdded'', JBigInt k),
                            (''pieceData'',
                               JArray (map (\<lambda>item. JObject [(''data'', JBytes (data item))])
                                         formattedPieceData)),
                            (''pieceMetadata'', JArray (map PieceMetadata_value pieceMetadata))]))))
               (withComponents h this AddPieces_types
                 (bindE (BigInt clientDataSetId) (\<lambda>n.
                  bindE (BigInt firstPieceId) (\<lambda>k.
                    Inr (JObject
                          [(''clientDataSetId'', JBigInt n),
                           (''firstAdded'', JBigInt k),
                           (''pieceData'',
                              JArray (map (\<lambda>item. JObject [(''data'', JBytes (data item))])
                                        formattedPieceData)),
                           (''pieceMetadata'',
                              JArray (map PieceMetadata_value pieceMetadata))]))))))"

subsection \<open>signSchedulePieceRemovals\<close>

definition SchedulePieceRemovals_types :: types where
  "SchedulePieceRemovals_types = [(''SchedulePieceRemovals'', SchedulePieceRemovals_fields)]"

definition signSchedulePieceRemovals ::
  "host \<Rightarrow> PDPAuthHelper \<Rightarrow> js_numeric \<Rightarrow> js_numeric list \<Rightarrow> AuthSignature eff" where
  "signSchedulePieceRemovals h this clientDataSetId pieceIds =
     bind (lift (mapE BigInt pieceIds)) (\<lambda>pieceIdsBigInt.
       let useMetaMask = isMetaMaskSigner h this
       in bind
            (if useMetaMask
             then signWithMetaMask h this SchedulePieceRemovals_types
                    (JObject
                      [(''clientDataSetId'', JString (toString h clientDataSetId)),
                       (''pieceIds'',
                          JArray (map (\<lambda>n. JString (toString h (BigInt_val n))) pieceIdsBigInt))])
             else bind (lift (BigInt clientDataSetId)) (\<lambda>n.
                    signLocally h this SchedulePieceRemovals_types
                      (JObject
                        [(''clientDataSetId'', JBigInt n),
                         (''pieceIds'', JArray (map JBigInt pieceIdsBigInt))])))
            (withComponents h this SchedulePieceRemovals_types
              (bindE (BigInt clientDataSetId) (\<lambda>n.
                 Inr (JObject
                       [(''clientDataSetId'', JBigInt n),
                        (''pieceIds'', JArray (map JBigInt pieceIdsBigInt))])))))"

subsection \<open>signDeleteDataSet\<close>

definition DeleteDataSet_types :: types where
  "DeleteDataSet_types = [(''DeleteDataSet'', DeleteDataSet_fields)]"

definition signDeleteDataSet :: "host \<Rightarrow> PDPAuthHelper \<Rightarrow> js_numeric \<Rightarrow> AuthSignature eff" where
  "signDeleteDataSet h this clientDataSetId =
     (let useMetaMask = isMetaMaskSigner h this
      in bind
           (if useMetaMask
            then signWithMetaMask h this DeleteDataSet_types
                   (JObject [(''clientDataSetId'', JString (toString h clientDataSetId))])
            else bind (lift (BigInt clientDataSetId)) (\<lambda>n.
                   signLocally h this DeleteDataSet_types
                     (JObject [(''clientDataSetId'', JBigInt n)])))
           (withComponents h this DeleteDataSet_types
             (bindE (BigInt clientDataSetId) (\<lambda>n.
                Inr (JObject [(''clientDataSetId'', JBigInt n)])))))"

section \<open>session/key.ts\<close>

text \<open>
  \<open>ethers.id\<close> is the Keccak-256 digest of a string. The model keeps it symbolic: a
  digest is known by the string it was taken of, so two digests are equal exactly when
  their strings are.
\<close>

datatype bytes32 = Keccak256 string

definition ethers_id :: "string \<Rightarrow> bytes32" where
  "ethers_id str = Keccak256 str"

text \<open>
  Modelled from the spec: \<open>EIP712_TYPE_HASHES\<close>, which \<open>session/key.ts\<close> imports from a
  version of \<open>utils/eip712.ts\<close> that is not among the sources. The specification makes
  a type hash the digest of the encoded type string of its operation; the earlier
  versions of the session key module write the four constants out in that way.
\<close>

definition CREATE_DATA_SET_TYPEHASH :: bytes32 where
  "CREATE_DATA_SET_TYPEHASH =
     ethers_id ''CreateDataSet(uint256 clientDataSetId,address payee,MetadataEntry[] metadata)MetadataEntry(string key,string value)''"

definition ADD_PIECES_TYPEHASH :: bytes32 where
  "ADD_PIECES_TYPEHASH =
     ethers_id ''AddPieces(uint256 clientDataSetId,uint256 firstAdded,Cid[] pieceData,PieceMetadata[] pieceMetadata)Cid(bytes data)MetadataEntry(string key,string value)PieceMetadata(uint256 pieceIndex,MetadataEntry[] metadata)''"

definition SCHEDULE_PIECE_REMOVALS_TYPEHASH :: bytes32 where
  "SCHEDULE_PIECE_REMOVALS_TYPEHASH =
     ethers_id ''SchedulePieceRemovals(uint256 clientDataSetId,uint256[] pieceIds)''"

definition DELETE_DATA_SET_TYPEHASH :: bytes32 where
  "DELETE_DATA_SET_TYPEHASH = ethers_id ''DeleteDataSet(uint256 clientDataSetId)''"

definition PDP_PERMISSIONS :: "bytes32 list" where
  "PDP_PERMISSIONS =
     [CREATE_DATA_SET_TYPEHASH, ADD_PIECES_TYPEHASH, SCHEDULE_PIECE_REMOVALS_TYPEHASH,
      DELETE_DATA_SET_TYPEHASH]"

text \<open>
  The call data \<open>encodeFunctionData('authorizationExpiry', [owner, signer, permission])\<close>,
  kept as the arguments it encodes.
\<close>

datatype calldata = authorizationExpiry_call string string bytes32

record call3 =
  target :: string
  allowFailure :: bool
  callData :: calldata

record result3 =
  success :: bool
  returnData :: bytes

text \<open>
  A key of the object \<open>expiries\<close>: a permission, or the text \<open>undefined\<close> that an index
  beyond the end of \<open>PDP_PERMISSIONS\<close> turns into.
\<close>

datatype property_key = Key bytes32 | Key_undefined

type_synonym expiries = "property_key \<rightharpoonup> int"

text \<open>
  The collaborators of \<open>fetchExpiries\<close>: the provider's network, the three address
  lookups and the order in which they settle, the multicall contract at the address of
  the network, and the decoder of the registry interface for the result of
  \<open>authorizationExpiry\<close>.
\<close>

record registry_host =
  getFilecoinNetworkType :: "js_error + string"
  owner_getAddress :: "js_error + string"
  signer_getAddress :: "js_error + string"
  registry_getAddress :: "js_error + string"
  settle_order :: "nat list"
  aggregate3 :: "string \<Rightarrow> call3 list \<Rightarrow> js_error + result3 list"
  decodeFunctionResult :: "bytes \<Rightarrow> js_error + int"

text \<open>Reading an array at an index: \<open>None\<close> is \<open>undefined\<close>.\<close>

definition at_index :: "'a list \<Rightarrow> nat \<Rightarrow> 'a option" where
  "at_index xs i = (if i < length xs then Some (xs ! i) else None)"

definition PDP_PERMISSIONS_key :: "nat \<Rightarrow> property_key" where
  "PDP_PERMISSIONS_key i =
     (case at_index PDP_PERMISSIONS i of Some p \<Rightarrow> Key p | None \<Rightarrow> Key_undefined)"

text \<open>
  The second loop of \<open>fetchExpiries\<close>, from index \<open>i\<close> on, with \<open>n\<close> the length of
  \<open>permissions\<close>. \<open>results\<close> is a \<open>Result\<close> of \<open>ethers\<close>: reading it at an index it does
  not have throws a \<open>RangeError\<close>.
\<close>

function decodeResults ::
  "registry_host \<Rightarrow> nat \<Rightarrow> result3 list \<Rightarrow> nat \<Rightarrow> expiries \<Rightarrow> js_error + expiries" where
  "decodeResults h n results i exps =
     (if i < n then
        (case at_index results i of
           None \<Rightarrow> Inl (RangeError ''out of result range'')
         | Some res \<Rightarrow>
             (case decodeFunctionResult h (returnData res) of
                Inl e \<Rightarrow> Inl e
              | Inr expiry \<Rightarrow>
                  decodeResults h n results (i + 1) (exps(PDP_PERMISSIONS_key i \<mapsto> expiry))))
      else Inr exps)"
  by pat_completeness auto
termination
  by (relation "measure (\<lambda>(h, n, results, i, exps). n - i)") auto

declare decodeResults.simps [simp del]

text \<open>
  The first loop of \<open>fetchExpiries\<close>: one call per requested permission, in the order
  of \<open>permissions\<close>.
\<close>

definition calls_for :: "string \<Rightarrow> string \<Rightarrow> string \<Rightarrow> bytes32 list \<Rightarrow> call3 list" where
  "calls_for ownerAddress signerAddress registryAddress permissions =
     map (\<lambda>permission.
           \<lparr>target = registryAddress, allowFailure = True,
            callData = authorizationExpiry_call ownerAddress signerAddress permission\<rparr>)
       permissions"

text \<open>
  \<open>Promise.all\<close> of three lookups: it rejects with the rejection that comes first in
  time, which is that of the first lookup in the order of settling that has thrown (the
  order of the array stands in where \<open>settle_order\<close> leaves a lookup out), and it
  resolves to the three values when none has thrown.
\<close>

fun first_rejection :: "nat list \<Rightarrow> (js_error + 'a) list \<Rightarrow> js_error option" where
  "first_rejection [] promises = None"
| "first_rejection (i # rest) promises =
     (case at_index promises i of
        Some (Inl e) \<Rightarrow> Some e
      | _ \<Rightarrow> first_rejection rest promises)"

definition Promise_all3 ::
  "nat list \<Rightarrow> js_error + 'a \<Rightarrow> js_error + 'a \<Rightarrow> js_error + 'a \<Rightarrow> js_error + ('a \<times> 'a \<times> 'a)" where
  "Promise_all3 order p0 p1 p2 =
     (case first_rejection (order @ [0, 1, 2]) [p0, p1, p2] of
        Some e \<Rightarrow> Inl e
      | None \<Rightarrow> bindE p0 (\<lambda>x0. bindE p1 (\<lambda>x1. bindE p2 (\<lambda>x2. Inr (x0, x1, x2)))))"

text \<open>
  \<open>fetchExpiries\<close>; an omitted argument takes the default \<open>PDP_PERMISSIONS\<close>. The
  multicall contract is known by the network whose address table entry it is.
\<close>

definition fetchExpiries :: "registry_host \<Rightarrow> bytes32 list option \<Rightarrow> js_error + expiries" where
  "fetchExpiries h permissions_arg =
     (let permissions = (case permissions_arg of None \<Rightarrow> PDP_PERMISSIONS | Some ps \<Rightarrow> ps)
      in bindE (getFilecoinNetworkType h) (\<lambda>network.
         bindE (Promise_all3 (settle_order h)
                  (owner_getAddress h) (signer_getAddress h) (registry_getAddress h))
           (\<lambda>(ownerAddress, signerAddress, registryAddress).
         bindE (aggregate3 h network
                  (calls_for ownerAddress signerAddress registryAddress permissions))
           (\<lambda>results. decodeResults h (length permissions) results 0 Map.empty))))"

section \<open>Example collaborators\<close>

text \<open>
  Concrete hosts, helpers and registries, on which the theorems below are run. The
  example hash tells the primary type and the data set apart and refuses a value object
  whose first field is not a bigint.
\<close>

fun decimal :: "nat \<Rightarrow> string" where
  "decimal n = (if n < 10 then [hex_digit n] else decimal (n div 10) @ [hex_digit (n mod 10)])"

declare decimal.simps [simp del]

definition example_toString :: "js_numeric \<Rightarrow> string" where
  "example_toString x =
     (case x of
        Number_int i \<Rightarrow> (if i < 0 then ''-'' else []) @ decimal (nat \<bar>i\<bar>)
      | Number_nonint \<Rightarrow> ''NaN''
      | BigInt_val i \<Rightarrow> (if i < 0 then ''-'' else []) @ decimal (nat \<bar>i\<bar>))"

definition example_hash :: "TypedDataDomain \<Rightarrow> types \<Rightarrow> js_value \<Rightarrow> js_error + string" where
  "example_hash d tys val =
     (case (tys, val) of
        ((primary, _) # _, JObject ((_, JBigInt n) # _)) \<Rightarrow>
          if 0 \<le> n then Inr (''digest of '' @ primary @ '' '' @ decimal (nat n))
          else Inl (RangeError ''value out-of-bounds'')
      | _ \<Rightarrow> Inl (TypeError ''invalid BigNumberish value''))"

definition example_host :: host where
  "example_host =
     \<lparr>window_ethereum = False,
      getAddress = (\<lambda>_. Inr ''0xsigner''),
      signTypedData = (\<lambda>_ _ _ _. Inr ''signed by the key''),
      request = (\<lambda>_ _ _. Inr ''signed by the agent''),
      send = (\<lambda>_ _ _. Inr ''signed by the agent''),
      Signature_from = (\<lambda>sig. Inr (27, ''r of '' @ sig, ''s of '' @ sig)),
      TypedDataEncoder_hash = example_hash,
      asPieceCID = (\<lambda>str. if str = ''bafkzcibvalid'' then Some \<lparr>bytes = [1, 2]\<rparr> else None),
      toString = example_toString\<rparr>"

definition example_domain :: TypedDataDomain where
  "example_domain =
     \<lparr>domain_name = ''FilecoinWarmStorageService'', version = ''1'', chainId = 314159,
      verifyingContract = ''0xservice''\<rparr>"

text \<open>A helper whose signer holds its key, and one whose signer is behind a browser wallet.\<close>

definition example_wallet :: PDPAuthHelper where
  "example_wallet =
     \<lparr>this_signer = Signer ''Wallet'' True None None,
      this_payer = Signer ''Wallet'' True None None,
      this_domain = example_domain\<rparr>"

definition example_browser :: PDPAuthHelper where
  "example_browser =
     \<lparr>this_signer = Signer ''JsonRpcSigner'' False
        (Some \<lparr>eip1193Provider = Some True, has_request = False, has_send = True\<rparr>) None,
      this_payer = Signer ''JsonRpcSigner'' False
        (Some \<lparr>eip1193Provider = Some True, has_request = False, has_send = True\<rparr>) None,
      this_domain = example_domain\<rparr>"

definition example_result :: "string \<Rightarrow> string \<Rightarrow> AuthSignature" where
  "example_result sig_text digest =
     \<lparr>signature = sig_text, v = 27, r = ''r of '' @ sig_text, s = ''s of '' @ sig_text,
      signedData = digest\<rparr>"

text \<open>
  The decoder of \<open>ethers\<close> for a result that is one \<open>uint256\<close>: data whose length is
  not a multiple of 32 bytes, or that is too short for the word, is refused.
\<close>

definition decode_uint256 :: "bytes \<Rightarrow> js_error + int" where
  "decode_uint256 bs =
     (if length bs mod 32 \<noteq> 0 then Inl (Error ''invalid length for result data'')
      else if length bs < 32 then Inl (Error ''could not decode result data'')
      else Inr (foldl (\<lambda>acc b. acc * 256 + uint b) 0 (take 32 bs)))"

definition encode_uint256 :: "int \<Rightarrow> bytes" where
  "encode_uint256 n = map (\<lambda>k. word_of_int (n div 256 ^ (31 - k))) [0 ..< 32]"

definition example_expiry :: "bytes32 \<Rightarrow> int" where
  "example_expiry p =
     (if p = CREATE_DATA_SET_TYPEHASH then 1001
      else if p = ADD_PIECES_TYPEHASH then 1002
      else if p = SCHEDULE_PIECE_REMOVALS_TYPEHASH then 1003
      else if p = DELETE_DATA_SET_TYPEHASH then 1004 else 0)"

text \<open>A registry that answers every sub-call with the expiry of its permission,\<close>

definition example_registry :: registry_host where
  "example_registry =
     \<lparr>getFilecoinNetworkType = Inr ''calibration'',
      owner_getAddress = Inr ''0xowner'',
      signer_getAddress = Inr ''0xsigner'',
      registry_getAddress = Inr ''0xregistry'',
      settle_order = [0, 1, 2],
      aggregate3 = (\<lambda>network calls.
         Inr (map (\<lambda>c. case callData c of authorizationExpiry_call _ _ p \<Rightarrow>
                     \<lparr>success = True, returnData = encode_uint256 (example_expiry p)\<rparr>)
                calls)),
      decodeFunctionResult = decode_uint256\<rparr>"

text \<open>
  and one whose sub-call for \<open>AddPieces\<close> reverts: the entry is marked as failed and
  carries no return data.
\<close>

definition failing_registry :: registry_host where
  "failing_registry =
     \<lparr>getFilecoinNetworkType = Inr ''calibration'',
      owner_getAddress = Inr ''0xowner'',
      signer_getAddress = Inr ''0xsigner'',
      registry_getAddress = Inr ''0xregistry'',
      settle_order = [0, 1, 2],
      aggregate3 = (\<lambda>network calls.
         Inr (map (\<lambda>c. case callData c of authorizationExpiry_call _ _ p \<Rightarrow>
                     if p = ADD_PIECES_TYPEHASH then \<lparr>success = False, returnData = []\<rparr>
                     else \<lparr>success = True, returnData = encode_uint256 (example_expiry p)\<rparr>)
                calls)),
      decodeFunctionResult = decode_uint256\<rparr>"

text \<open>
  A third one, whose sub-call for \<open>AddPieces\<close> is marked as failed too, and comes back
  with 32 bytes of revert data.
\<close>

definition reverting_registry :: registry_host where
  "reverting_registry =
     \<lparr>getFilecoinNetworkType = Inr ''calibration'',
      owner_getAddress = Inr ''0xowner'',
      signer_getAddress = Inr ''0xsigner'',
      registry_getAddress = Inr ''0xregistry'',
      settle_order = [0, 1, 2],
      aggregate3 = (\<lambda>network calls.
         Inr (map (\<lambda>c. case callData c of authorizationExpiry_call _ _ p \<Rightarrow>
                     if p = ADD_PIECES_TYPEHASH
                     then \<lparr>success = False, returnData = encode_uint256 77\<rparr>
                     else \<lparr>success = True, returnData = encode_uint256 (example_expiry p)\<rparr>)
                calls)),
      decodeFunctionResult = decode_uint256\<rparr>"

section \<open>Properties of getEIP712TypeString\<close>

lemmas registry_defs =
  EIP712_TYPES_def MetadataEntry_fields_def CreateDataSet_fields_def Cid_fields_def
  PieceMetadata_fields_def AddPieces_fields_def SchedulePieceRemovals_fields_def
  DeleteDataSet_fields_def own_keys_def Object_prototype_keys_def in_EIP712_TYPES_def
  get_EIP712_TYPES_def

lemmas typeString_defs =
  getEIP712TypeString_def otherStrings_def js_sort_def localeCompare_def typeMap_has_def
  typeMap_get_def baseType_def endsWith_def argStrings_def SchemaNotFound_def

text \<open>
  C2. \<open>getEIP712TypeString('AddPieces')\<close> is the string the specification and the
  test give: the fragment of \<open>AddPieces\<close>, then the fragments of \<open>Cid\<close>,
  \<open>MetadataEntry\<close> and \<open>PieceMetadata\<close>, the types it reaches, in ascending order
  of their names and with nothing between them.
\<close>

theorem getEIP712TypeString_AddPieces:
  "getEIP712TypeString ''AddPieces'' =
     Inr ''AddPieces(uint256 clientDataSetId,uint256 firstAdded,Cid[] pieceData,PieceMetadata[] pieceMetadata)Cid(bytes data)MetadataEntry(string key,string value)PieceMetadata(uint256 pieceIndex,MetadataEntry[] metadata)''"
  by (simp add: registry_defs typeString_defs)

text \<open>The result of the call at each own key of the registry,\<close>

lemma typeStrings_of_own_keys:
  "getEIP712TypeString ''MetadataEntry'' = Inr ''MetadataEntry(string key,string value)''"
  "getEIP712TypeString ''CreateDataSet'' = Inr ''CreateDataSet(uint256 clientDataSetId,address payee,MetadataEntry[] metadata)MetadataEntry(string key,string value)''"
  "getEIP712TypeString ''Cid'' = Inr ''Cid(bytes data)''"
  "getEIP712TypeString ''PieceMetadata'' = Inr ''PieceMetadata(uint256 pieceIndex,MetadataEntry[] metadata)MetadataEntry(string key,string value)''"
  "getEIP712TypeString ''AddPieces'' = Inr ''AddPieces(uint256 clientDataSetId,uint256 firstAdded,Cid[] pieceData,PieceMetadata[] pieceMetadata)Cid(bytes data)MetadataEntry(string key,string value)PieceMetadata(uint256 pieceIndex,MetadataEntry[] metadata)''"
  "getEIP712TypeString ''SchedulePieceRemovals'' = Inr ''SchedulePieceRemovals(uint256 clientDataSetId,uint256[] pieceIds)''"
  "getEIP712TypeString ''DeleteDataSet'' = Inr ''DeleteDataSet(uint256 clientDataSetId)''"
  by (simp_all add: registry_defs typeString_defs)

text \<open>and at each name a plain object inherits.\<close>

lemma typeStrings_of_inherited:
  "getEIP712TypeString ''constructor'' = Inl (TypeError ''args.map is not a function'')"
  "getEIP712TypeString ''hasOwnProperty'' = Inl (TypeError ''args.map is not a function'')"
  "getEIP712TypeString ''isPrototypeOf'' = Inl (TypeError ''args.map is not a function'')"
  "getEIP712TypeString ''propertyIsEnumerable'' = Inl (TypeError ''args.map is not a function'')"
  "getEIP712TypeString ''toLocaleString'' = Inl (TypeError ''args.map is not a function'')"
  "getEIP712TypeString ''toString'' = Inl (TypeError ''args.map is not a function'')"
  "getEIP712TypeString ''valueOf'' = Inl (TypeError ''args.map is not a function'')"
  "getEIP712TypeString ''__proto__'' = Inl (TypeError ''args.map is not a function'')"
  "getEIP712TypeString ''__defineGetter__'' = Inl (TypeError ''args.map is not a function'')"
  "getEIP712TypeString ''__defineSetter__'' = Inl (TypeError ''args.map is not a function'')"
  "getEIP712TypeString ''__lookupGetter__'' = Inl (TypeError ''args.map is not a function'')"
  "getEIP712TypeString ''__lookupSetter__'' = Inl (TypeError ''args.map is not a function'')"
  by (simp_all add: registry_defs typeString_defs)

lemma own_keys_cases:
  "rootType \<in> set own_keys \<longleftrightarrow>
     rootType \<in> {''MetadataEntry'', ''CreateDataSet'', ''Cid'', ''PieceMetadata'',
       ''AddPieces'', ''SchedulePieceRemovals'', ''DeleteDataSet''}"
  unfolding own_keys_def EIP712_TYPES_def by simp

text \<open>What holds of the error behaviour: every own key of the registry yields a string,\<close>

lemma getEIP712TypeString_own_key:
  assumes "rootType \<in> set own_keys"
  shows "\<exists>s. getEIP712TypeString rootType = Inr s"
proof -
  from assms have
    "rootType \<in> {''MetadataEntry'', ''CreateDataSet'', ''Cid'', ''PieceMetadata'',
       ''AddPieces'', ''SchedulePieceRemovals'', ''DeleteDataSet''}"
    by (simp only: own_keys_cases)
  then show ?thesis
    by (elim insertE emptyE) (simp_all only: typeStrings_of_own_keys sum.inject simp_thms)
qed

text \<open>a name that \<open>in\<close> does not find yields the error of the first check,\<close>

lemma getEIP712TypeString_not_in:
  "\<not> in_EIP712_TYPES rootType \<Longrightarrow>
     getEIP712TypeString rootType = Inl (SchemaNotFound rootType)"
  by (simp add: getEIP712TypeString_def)

text \<open>
  and a name that \<open>in\<close> finds on the prototype passes the first check and fails in
  \<open>collectType\<close>, with another error.
\<close>

lemma getEIP712TypeString_inherited:
  assumes "rootType \<in> set Object_prototype_keys"
  shows "getEIP712TypeString rootType = Inl (TypeError ''args.map is not a function'')"
proof -
  from assms have
    "rootType \<in> {''constructor'', ''hasOwnProperty'', ''isPrototypeOf'',
       ''propertyIsEnumerable'', ''toLocaleString'', ''toString'', ''valueOf'',
       ''__proto__'', ''__defineGetter__'', ''__defineSetter__'', ''__lookupGetter__'',
       ''__lookupSetter__''}"
    unfolding Object_prototype_keys_def by simp
  then show ?thesis
    by (elim insertE emptyE) (simp_all only: typeStrings_of_inherited)
qed

lemma SchemaNotFound_iff:
  "getEIP712TypeString rootType = Inl (SchemaNotFound rootType) \<longleftrightarrow>
     \<not> in_EIP712_TYPES rootType"
proof
  assume r: "getEIP712TypeString rootType = Inl (SchemaNotFound rootType)"
  show "\<not> in_EIP712_TYPES rootType"
  proof
    assume "in_EIP712_TYPES rootType"
    then consider "rootType \<in> set own_keys" | "rootType \<in> set Object_prototype_keys"
      unfolding in_EIP712_TYPES_def by blast
    then show False
    proof cases
      case 1
      from getEIP712TypeString_own_key [OF this] r show False by auto
    next
      case 2
      from getEIP712TypeString_inherited [OF this] r show False
        by (simp add: SchemaNotFound_def)
    qed
  qed
qed (rule getEIP712TypeString_not_in)

text \<open>
  C8. The claim gives \<open>SchemaNotFound\<close> to every name that is not a key of the
  registry. \<open>toString\<close> is not a key of the registry, yet \<open>'toString' in EIP712_TYPES\<close>
  holds through the prototype: the first check lets it pass, and the call fails with
  the \<open>TypeError\<close> of \<open>args.map\<close> instead.
\<close>

theorem getEIP712TypeString_toString:
  "''toString'' \<notin> set own_keys \<and>
   getEIP712TypeString ''toString'' = Inl (TypeError ''args.map is not a function'') \<and>
   getEIP712TypeString ''toString'' \<noteq> Inl (SchemaNotFound ''toString'')"
  by (simp add: registry_defs typeString_defs)

subsection \<open>What a call reads and writes\<close>

text \<open>A call of \<open>collectType\<close> writes to the \<open>Map\<close> at its address and to nothing else.\<close>

definition writes_only :: "nat \<Rightarrow> store \<Rightarrow> store \<Rightarrow> bool" where
  "writes_only a st st' \<longleftrightarrow>
     EIP712_TYPES_object st' = EIP712_TYPES_object st \<and> collation st' = collation st \<and>
     next_Map st' = next_Map st \<and> (\<forall>b. b \<noteq> a \<longrightarrow> Maps st' b = Maps st b)"

lemma writes_only_refl: "writes_only a st st"
  by (simp add: writes_only_def)

lemma writes_only_trans:
  "writes_only a st st' \<Longrightarrow> writes_only a st' st'' \<Longrightarrow> writes_only a st st''"
  by (auto simp: writes_only_def)

lemma writes_only_Map_set: "writes_only a st (Map_set a k txt st)"
  by (simp add: writes_only_def Map_set_def)

lemma collect_st_writes_only:
  "writes_only a st (snd (collectType_st a typeName st))"
  "writes_only a st (snd (collectArgs_st a args st))"
proof (induction a typeName st and a args st rule: collectType_st_collectArgs_st.induct)
  case (1 a typeName st)
  then show ?case
    by (auto simp: collectType_st.simps [of a typeName st] writes_only_refl
        split: js_property.splits intro: writes_only_trans [OF writes_only_Map_set])
next
  case (2 a st)
  then show ?case by (simp add: writes_only_refl)
next
  case (3 a arg rest st)
  then show ?case
    by (auto split: prod.splits option.splits intro: writes_only_trans)
qed

text \<open>
  Its outcome and the \<open>Map\<close> it leaves depend on the object and on the \<open>Map\<close> it was
  given, not on where that \<open>Map\<close> lives nor on the rest of the store.
\<close>

lemma collect_st_independent:
  "EIP712_TYPES_object st = EIP712_TYPES_object st2 \<Longrightarrow> Maps st a = Maps st2 b \<Longrightarrow>
     fst (collectType_st a typeName st) = fst (collectType_st b typeName st2) \<and>
     Maps (snd (collectType_st a typeName st)) a = Maps (snd (collectType_st b typeName st2)) b"
  "EIP712_TYPES_object st = EIP712_TYPES_object st2 \<Longrightarrow> Maps st a = Maps st2 b \<Longrightarrow>
     fst (collectArgs_st a args st) = fst (collectArgs_st b args st2) \<and>
     Maps (snd (collectArgs_st a args st)) a = Maps (snd (collectArgs_st b args st2)) b"
proof (induction a typeName st and a args st arbitrary: st2 b and st2 b
    rule: collectType_st_collectArgs_st.induct)
  case (1 a typeName st)
  show ?case
  proof (cases "typeMap_has (Maps st a) typeName
      \<or> \<not> has_property (EIP712_TYPES_object st) typeName")
    case True
    with "1.prems" show ?thesis
      by (auto simp: collectType_st.simps [of a typeName st]
          collectType_st.simps [of b typeName st2])
  next
    case False
    note unfold = collectType_st.simps [of a typeName st]
      collectType_st.simps [of b typeName st2]
    show ?thesis
    proof (cases "get_property (EIP712_TYPES_object st) typeName")
      case (Fields args)
      let ?txt = "typeName @ ''('' @ argStrings args @ '')''"
      have "fst (collectArgs_st a args (Map_set a typeName ?txt st))
              = fst (collectArgs_st b args (Map_set b typeName ?txt st2)) \<and>
            Maps (snd (collectArgs_st a args (Map_set a typeName ?txt st))) a
              = Maps (snd (collectArgs_st b args (Map_set b typeName ?txt st2))) b"
        using False Fields "1.prems" by (intro "1.IH") (auto simp: Map_set_def)
      with False Fields "1.prems" show ?thesis by (simp add: unfold)
    next
      case Inherited
      with False "1.prems" show ?thesis by (simp add: unfold)
    next
      case Undefined
      with False "1.prems" show ?thesis by (simp add: unfold)
    qed
  qed
next
  case (2 a st)
  then show ?case by simp
next
  case (3 a arg rest st)
  obtain e1 st' where r1: "collectType_st a (baseType arg) st = (e1, st')"
    by (cases "collectType_st a (baseType arg) st")
  obtain e2 st2' where r2: "collectType_st b (baseType arg) st2 = (e2, st2')"
    by (cases "collectType_st b (baseType arg) st2")
  from "3.IH"(1) [OF "3.prems"] r1 r2 have same: "e1 = e2" "Maps st' a = Maps st2' b"
    by simp_all
  have obj: "EIP712_TYPES_object st' = EIP712_TYPES_object st2'"
    using collect_st_writes_only(1) [of a st "baseType arg"]
      collect_st_writes_only(1) [of b st2 "baseType arg"] r1 r2 "3.prems"
    by (simp add: writes_only_def)
  show ?case
  proof (cases e1)
    case (Some e)
    with r1 r2 same show ?thesis by auto
  next
    case None
    from "3.IH"(2) [OF r1 [symmetric] None obj same(2)] r1 r2 same None
    show ?thesis by auto
  qed
qed

text \<open>
  So the result of \<open>getEIP712TypeString\<close> depends on the store through the object and
  the collation only, and the call leaves both as they were, with every \<open>Map\<close> that
  was there before.
\<close>

lemma run_depends_on:
  assumes "EIP712_TYPES_object st = EIP712_TYPES_object st'" and "collation st = collation st'"
  shows "fst (getEIP712TypeString_st rootType st) = fst (getEIP712TypeString_st rootType st')"
proof (cases "has_property (EIP712_TYPES_object st) rootType")
  case False
  with assms show ?thesis by (simp add: getEIP712TypeString_st_def)
next
  case True
  let ?a = "next_Map st" and ?b = "next_Map st'"
  let ?st1 = "st\<lparr>Maps := (Maps st)(?a := []), next_Map := Suc ?a\<rparr>"
  let ?st1' = "st'\<lparr>Maps := (Maps st')(?b := []), next_Map := Suc ?b\<rparr>"
  obtain e st2 where r: "collectType_st ?a rootType ?st1 = (e, st2)"
    by (cases "collectType_st ?a rootType ?st1")
  obtain e' st2' where r': "collectType_st ?b rootType ?st1' = (e', st2')"
    by (cases "collectType_st ?b rootType ?st1'")
  have "EIP712_TYPES_object ?st1 = EIP712_TYPES_object ?st1'" "Maps ?st1 ?a = Maps ?st1' ?b"
    using assms by simp_all
  from collect_st_independent(1) [OF this, of rootType] r r'
  have same: "e = e'" "Maps st2 ?a = Maps st2' ?b" by simp_all
  have "collation st2 = collation st2'"
    using collect_st_writes_only(1) [of ?a ?st1 rootType]
      collect_st_writes_only(1) [of ?b ?st1' rootType] r r' assms
    by (simp add: writes_only_def)
  with True assms r r' same show ?thesis
    by (auto simp: getEIP712TypeString_st_def Let_def split: option.splits)
qed

lemma run_frame:
  "EIP712_TYPES_object (snd (getEIP712TypeString_st rootType st)) = EIP712_TYPES_object st"
  "collation (snd (getEIP712TypeString_st rootType st)) = collation st"
  "map (Maps (snd (getEIP712TypeString_st rootType st))) [0 ..< next_Map st]
     = map (Maps st) [0 ..< next_Map st]"
proof -
  let ?a = "next_Map st"
  let ?st1 = "st\<lparr>Maps := (Maps st)(?a := []), next_Map := Suc ?a\<rparr>"
  obtain e st2 where r: "collectType_st ?a rootType ?st1 = (e, st2)"
    by (cases "collectType_st ?a rootType ?st1")
  have w: "writes_only ?a ?st1 st2"
    using collect_st_writes_only(1) [of ?a ?st1 rootType] r by simp
  have snd_run: "snd (getEIP712TypeString_st rootType st) = st
      \<or> snd (getEIP712TypeString_st rootType st) = st2"
    using r by (auto simp: getEIP712TypeString_st_def Let_def split: option.splits)
  from w have "EIP712_TYPES_object st2 = EIP712_TYPES_object st" "collation st2 = collation st"
    by (simp_all add: writes_only_def)
  moreover from w have "map (Maps st2) [0 ..< ?a] = map (Maps st) [0 ..< ?a]"
    by (auto simp: writes_only_def)
  ultimately show
    "EIP712_TYPES_object (snd (getEIP712TypeString_st rootType st)) = EIP712_TYPES_object st"
    "collation (snd (getEIP712TypeString_st rootType st)) = collation st"
    "map (Maps (snd (getEIP712TypeString_st rootType st))) [0 ..< next_Map st]
       = map (Maps st) [0 ..< next_Map st]"
    using snd_run by auto
qed

lemma has_property_EIP712_TYPES: "has_property EIP712_TYPES = in_EIP712_TYPES"
  by (simp add: fun_eq_iff has_property_def in_EIP712_TYPES_def own_keys_def)

lemma get_property_EIP712_TYPES: "get_property EIP712_TYPES = get_EIP712_TYPES"
  by (simp add: fun_eq_iff get_property_def get_EIP712_TYPES_def)

lemma collect_st_refines:
  "EIP712_TYPES_object st = EIP712_TYPES \<Longrightarrow>
     (case collectType typeName (Maps st a) of
        Inl e \<Rightarrow> fst (collectType_st a typeName st) = Some e
      | Inr m' \<Rightarrow> fst (collectType_st a typeName st) = None \<and>
                 Maps (snd (collectType_st a typeName st)) a = m')"
  "EIP712_TYPES_object st = EIP712_TYPES \<Longrightarrow>
     (case collectArgs args (Maps st a) of
        Inl e \<Rightarrow> fst (collectArgs_st a args st) = Some e
      | Inr m' \<Rightarrow> fst (collectArgs_st a args st) = None \<and>
                 Maps (snd (collectArgs_st a args st)) a = m')"
proof (induction a typeName st and a args st rule: collectType_st_collectArgs_st.induct)
  case (1 a typeName st)
  note unfold = collectType_st.simps [of a typeName st] collectType.simps [of typeName "Maps st a"]
  show ?case
  proof (cases "typeMap_has (Maps st a) typeName \<or> \<not> in_EIP712_TYPES typeName")
    case True
    with "1.prems" show ?thesis
      by (simp add: unfold has_property_EIP712_TYPES del: collectType.simps)
  next
    case False
    show ?thesis
    proof (cases "get_EIP712_TYPES typeName")
      case (Fields args)
      let ?txt = "typeName @ ''('' @ argStrings args @ '')''"
      have "case collectArgs args (Maps (Map_set a typeName ?txt st) a) of
              Inl e \<Rightarrow> fst (collectArgs_st a args (Map_set a typeName ?txt st)) = Some e
            | Inr m' \<Rightarrow> fst (collectArgs_st a args (Map_set a typeName ?txt st)) = None \<and>
                Maps (snd (collectArgs_st a args (Map_set a typeName ?txt st))) a = m'"
        using False Fields "1.prems"
        by (intro "1.IH")
          (auto simp: Map_set_def has_property_EIP712_TYPES get_property_EIP712_TYPES)
      moreover have "Maps (Map_set a typeName ?txt st) a = typeMap_set (Maps st a) typeName ?txt"
        by (simp add: Map_set_def)
      ultimately show ?thesis
        using False Fields "1.prems"
        by (auto simp: unfold has_property_EIP712_TYPES get_property_EIP712_TYPES
            simp del: collectType.simps split: sum.splits)
    next
      case Inherited
      with False "1.prems" show ?thesis
        by (simp add: unfold has_property_EIP712_TYPES get_property_EIP712_TYPES
            del: collectType.simps)
    next
      case Undefined
      with False "1.prems" show ?thesis
        by (simp add: unfold has_property_EIP712_TYPES get_property_EIP712_TYPES
            del: collectType.simps)
    qed
  qed
next
  case (2 a st)
  then show ?case by simp
next
  case (3 a arg rest st)
  obtain e1 st' where r1: "collectType_st a (baseType arg) st = (e1, st')"
    by (cases "collectType_st a (baseType arg) st")
  have obj: "EIP712_TYPES_object st' = EIP712_TYPES"
    using collect_st_writes_only(1) [of a st "baseType arg"] r1 "3.prems"
    by (simp add: writes_only_def)
  note first = "3.IH"(1) [OF "3.prems"]
  show ?case
  proof (cases "collectType (baseType arg) (Maps st a)")
    case (Inl e)
    with first r1 show ?thesis
      by (simp del: collectType.simps)
  next
    case (Inr m')
    with first r1 have e1: "e1 = None" and m': "Maps st' a = m'"
      by (simp_all del: collectType.simps)
    from "3.IH"(2) [OF r1 [symmetric] e1 obj] m' Inr r1 e1 show ?thesis
      by (auto simp del: collectType.simps split: sum.splits)
  qed
qed

lemma otherStrings_by_localeCompare: "otherStrings_by localeCompare = otherStrings"
  by (simp add: fun_eq_iff otherStrings_by_def otherStrings_def)

lemma run_refines:
  assumes "EIP712_TYPES_object st = EIP712_TYPES" and "collation st = localeCompare"
  shows "fst (getEIP712TypeString_st rootType st) = getEIP712TypeString rootType"
proof (cases "in_EIP712_TYPES rootType")
  case False
  with assms show ?thesis
    by (simp add: getEIP712TypeString_st_def getEIP712TypeString_def has_property_EIP712_TYPES)
next
  case True
  let ?a = "next_Map st"
  let ?st1 = "st\<lparr>Maps := (Maps st)(?a := []), next_Map := Suc ?a\<rparr>"
  obtain e st2 where r: "collectType_st ?a rootType ?st1 = (e, st2)"
    by (cases "collectType_st ?a rootType ?st1")
  have w: "collation st2 = localeCompare"
    using collect_st_writes_only(1) [of ?a ?st1 rootType] r assms
    by (simp add: writes_only_def)
  have "case collectType rootType [] of
          Inl e' \<Rightarrow> e = Some e'
        | Inr m' \<Rightarrow> e = None \<and> Maps st2 ?a = m'"
    using collect_st_refines(1) [where st = ?st1 and typeName = rootType and a = ?a] assms r
    by (auto simp del: collectType.simps split: sum.splits)
  with True assms r w show ?thesis
    by (auto simp: getEIP712TypeString_st_def getEIP712TypeString_def Let_def
        has_property_EIP712_TYPES otherStrings_by_localeCompare
        simp del: collectType.simps split: sum.splits option.splits)
qed

lemma example_run:
  "fst (getEIP712TypeString_st ''DeleteDataSet''
          \<lparr>EIP712_TYPES_object = EIP712_TYPES, collation = localeCompare,
           Maps = (\<lambda>_. []), next_Map = 0\<rparr>)
     = Inr ''DeleteDataSet(uint256 clientDataSetId)''"
  by (simp add: run_refines typeStrings_of_own_keys)

text \<open>
  C9. For every state of the exported object, of the host's collation and of the
  \<open>Map\<close> objects, and for every root type: a second call, made on the store the first
  call leaves, returns the same value as the first, a string or an error; the result is
  the same on any other contents of the \<open>Map\<close> heap; the call leaves the object, the
  collation and every \<open>Map\<close> that existed before it unchanged; and on the object as
  the module defines it, with the collation of the first model, the result is that of
  \<open>getEIP712TypeString\<close> above.
\<close>

theorem getEIP712TypeString_calls_agree:
  "fst (getEIP712TypeString_st rootType (snd (getEIP712TypeString_st rootType st)))
     = fst (getEIP712TypeString_st rootType st) \<and>
   fst (getEIP712TypeString_st rootType (st\<lparr>Maps := other_Maps, next_Map := k\<rparr>))
     = fst (getEIP712TypeString_st rootType st) \<and>
   EIP712_TYPES_object (snd (getEIP712TypeString_st rootType st)) = EIP712_TYPES_object st \<and>
   collation (snd (getEIP712TypeString_st rootType st)) = collation st \<and>
   map (Maps (snd (getEIP712TypeString_st rootType st))) [0 ..< next_Map st]
     = map (Maps st) [0 ..< next_Map st] \<and>
   fst (getEIP712TypeString_st rootType
          \<lparr>EIP712_TYPES_object = EIP712_TYPES, collation = localeCompare,
           Maps = other_Maps, next_Map = k\<rparr>)
     = getEIP712TypeString rootType"
proof (intro conjI)
  show "fst (getEIP712TypeString_st rootType (snd (getEIP712TypeString_st rootType st)))
     = fst (getEIP712TypeString_st rootType st)"
    by (rule run_depends_on) (simp_all add: run_frame)
  show "fst (getEIP712TypeString_st rootType (st\<lparr>Maps := other_Maps, next_Map := k\<rparr>))
     = fst (getEIP712TypeString_st rootType st)"
    by (rule run_depends_on) simp_all
  show "fst (getEIP712TypeString_st rootType
          \<lparr>EIP712_TYPES_object = EIP712_TYPES, collation = localeCompare,
           Maps = other_Maps, next_Map = k\<rparr>)
     = getEIP712TypeString rootType"
    by (rule run_refines) simp_all
qed (rule run_frame)+

section \<open>Properties of the signing functions\<close>

lemmas example_defs =
  example_host_def example_wallet_def example_browser_def example_domain_def
  example_hash_def example_toString_def example_result_def

lemmas sign_defs =
  bind_def lift_def bindE_def withComponents_def signLocally_def signWithMetaMask_def
  isMetaMaskSigner_def getUnderlyingSigner_def BigInt_def Let_def

lemma bind_lift_Inl: "bind (lift (Inl e)) f = (Inl e, [])"
  by (simp add: bind_def lift_def)










lemma example_signSchedulePieceRemovals:
  "fst (signSchedulePieceRemovals example_host example_wallet (Number_int 7)
          [Number_int 1, BigInt_val 2]) =
     Inr (example_result ''signed by the key'' ''digest of SchedulePieceRemovals 7'')"
  by (simp add: signSchedulePieceRemovals_def SchedulePieceRemovals_types_def sign_defs
      example_defs decimal.simps hex_digit_def)

lemma example_signDeleteDataSet:
  "fst (signDeleteDataSet example_host example_wallet (Number_int 7)) =
     Inr (example_result ''signed by the key'' ''digest of DeleteDataSet 7'')"
  by (simp add: signDeleteDataSet_def DeleteDataSet_types_def sign_defs example_defs
      decimal.simps hex_digit_def)

lemma example_paths:
  "isMetaMaskSigner example_host example_browser" "\<not> isMetaMaskSigner example_host example_wallet"
  by (simp_all add: isMetaMaskSigner_def getUnderlyingSigner_def example_defs)



section \<open>Properties of the AddPieces payload\<close>

text \<open>
  What the loop returns: one \<open>Cid\<close> per piece, and the piece metadata of the indices
  it ran through, each with the metadata found at its index.
\<close>

lemma formatPieces_Inr:
  "formatPieces h pieces md i fpd0 pm0 = Inr (fpd, pm) \<Longrightarrow>
     pm = pm0 @ map (\<lambda>j. \<lparr>pieceIndex = j, metadata = md ! j\<rparr>) [i ..< i + length pieces] \<and>
     length fpd = length fpd0 + length pieces"
proof (induction pieces arbitrary: i fpd0 pm0)
  case Nil
  then show ?case by simp
next
  case (Cons piece rest)
  from Cons.prems have "\<exists>pieceCid :: PieceCID.
      formatPieces h rest md (Suc i) (fpd0 @ [\<lparr>data = bytes pieceCid\<rparr>])
        (pm0 @ [\<lparr>pieceIndex = i, metadata = md ! i\<rparr>]) = Inr (fpd, pm)"
    by (cases "case piece of Piece_string str \<Rightarrow> asPieceCID h str | Piece_CID c \<Rightarrow> Some c")
      auto
  then obtain pieceCid :: PieceCID where
    rest: "formatPieces h rest md (Suc i) (fpd0 @ [\<lparr>data = bytes pieceCid\<rparr>])
             (pm0 @ [\<lparr>pieceIndex = i, metadata = md ! i\<rparr>]) = Inr (fpd, pm)" ..
  have "[i ..< i + length (piece # rest)] = i # [Suc i ..< Suc i + length rest]"
    by (simp add: upt_conv_Cons del: upt_Suc)
  with Cons.IH [OF rest] show ?case by simp
qed

lemma formatPieces_unparsable:
  "Piece_string str \<in> set pieces \<Longrightarrow> asPieceCID h str = None \<Longrightarrow>
     formatPieces h pieces md i fpd0 pm0 = Inl InvalidPieceIdentifier"
proof (induction pieces arbitrary: i fpd0 pm0)
  case Nil
  then show ?case by simp
next
  case (Cons piece rest)
  then show ?case
    by (cases piece) (auto split: option.splits)
qed

text \<open>The loop throws no other error than that of an unparsable piece.\<close>

lemma formatPieces_Inl:
  "formatPieces h pieces md i fpd0 pm0 = Inl e \<Longrightarrow> e = InvalidPieceIdentifier"
  by (induction pieces arbitrary: i fpd0 pm0) (auto split: option.splits)

text \<open>The metadata array that passes the first statement has one entry per piece.\<close>

lemma metadata_for_Inr: "metadata_for metadata_arg n = Inr md \<Longrightarrow> length md = n"
  by (auto simp: metadata_for_def Let_def split: if_splits)

lemma AddPieces_payload_Inr:
  assumes "AddPieces_payload h pieces metadata_arg = Inr (fpd, pm)"
  shows "\<exists>md. metadata_for metadata_arg (length pieces) = Inr md \<and>
           pm = map (\<lambda>j. \<lparr>pieceIndex = j, metadata = md ! j\<rparr>) [0 ..< length pieces] \<and>
           length fpd = length pieces"
  using assms unfolding AddPieces_payload_def bindE_def
  by (auto split: sum.splits dest!: formatPieces_Inr)

text \<open>
  C7. In every payload that \<open>signAddPieces\<close> builds, \<open>pieceMetadata\<close> is as long as
  \<open>pieceData\<close> (and as the piece list), and its entry at index \<open>i\<close> has \<open>pieceIndex\<close>
  \<open>i\<close>.
\<close>

theorem AddPieces_payload_indices:
  "AddPieces_payload h pieceDataArray metadata_arg = Inr (formattedPieceData, pieceMetadata) \<Longrightarrow>
     length pieceMetadata = length formattedPieceData \<and>
     length formattedPieceData = length pieceDataArray \<and>
     (\<forall>i < length pieceMetadata. pieceIndex (pieceMetadata ! i) = i)"
  by (auto dest!: AddPieces_payload_Inr)

lemma example_payload:
  "AddPieces_payload example_host
     [Piece_string ''bafkzcibvalid'', Piece_CID \<lparr>bytes = [3]\<rparr>]
     (Some [[\<lparr>key = ''withCDN'', value = []\<rparr>], []]) =
   Inr ([\<lparr>data = [1, 2]\<rparr>, \<lparr>data = [3]\<rparr>],
        [\<lparr>pieceIndex = 0, metadata = [\<lparr>key = ''withCDN'', value = []\<rparr>]\<rparr>,
         \<lparr>pieceIndex = 1, metadata = []\<rparr>])"
  by (simp add: AddPieces_payload_def metadata_for_def bindE_def example_host_def)

theorem AddPieces_payload_indices_witness:
  "AddPieces_payload example_host
     [Piece_string ''bafkzcibvalid'', Piece_CID \<lparr>bytes = [3]\<rparr>]
     (Some [[\<lparr>key = ''withCDN'', value = []\<rparr>], []]) =
   Inr ([\<lparr>data = [1, 2]\<rparr>, \<lparr>data = [3]\<rparr>],
        [\<lparr>pieceIndex = 0, metadata = [\<lparr>key = ''withCDN'', value = []\<rparr>]\<rparr>,
         \<lparr>pieceIndex = 1, metadata = []\<rparr>]) \<and>
   length [\<lparr>pieceIndex = 0, metadata = [\<lparr>key = ''withCDN'', value = []\<rparr>]\<rparr>,
           \<lparr>pieceIndex = 1, metadata = []\<rparr>]
     = length [\<lparr>data = [1, 2 :: 8 word]\<rparr>, \<lparr>data = [3]\<rparr>] \<and>
   pieceIndex ([\<lparr>pieceIndex = 0, metadata = [\<lparr>key = ''withCDN'', value = []\<rparr>]\<rparr>,
                \<lparr>pieceIndex = 1, metadata = []\<rparr>] ! 1) = 1"
  using AddPieces_payload_indices [OF example_payload] example_payload by simp

text \<open>
  C5, as the code has it. With no metadata argument the metadata array is one empty
  list per piece, and so is the metadata of every payload built from it. A metadata
  argument that is not empty and whose length is not the number of pieces makes the
  call throw \<open>InvalidArgument\<close>, with no request for a signature made, whatever the
  pieces, the signer and the host are. An empty metadata argument is not refused: see
  the counterexample.
\<close>

theorem signAddPieces_metadata_length:
  "metadata_for None (length pieceDataArray) = Inr (replicate (length pieceDataArray) []) \<and>
   (AddPieces_payload h pieceDataArray None = Inr (formattedPieceData, pieceMetadata) \<longrightarrow>
      map metadata pieceMetadata = replicate (length pieceDataArray) []) \<and>
   (md \<noteq> [] \<and> length md \<noteq> length pieceDataArray \<longrightarrow>
      signAddPieces h this clientDataSetId firstPieceId pieceDataArray (Some md)
        = (Inl InvalidArgument, []))"
proof (intro conjI impI)
  show "metadata_for None (length pieceDataArray) = Inr (replicate (length pieceDataArray) [])"
    by (simp add: metadata_for_def)
  show "map metadata pieceMetadata = replicate (length pieceDataArray) []"
    if "AddPieces_payload h pieceDataArray None = Inr (formattedPieceData, pieceMetadata)"
    using AddPieces_payload_Inr [OF that]
    by (auto simp: metadata_for_def intro!: nth_equalityI)
  show "signAddPieces h this clientDataSetId firstPieceId pieceDataArray (Some md)
        = (Inl InvalidArgument, [])"
    if "md \<noteq> [] \<and> length md \<noteq> length pieceDataArray"
    using that
    by (simp add: signAddPieces_def AddPieces_payload_def metadata_for_def bindE_def
        bind_lift_Inl)
qed

lemma example_payload_default:
  "AddPieces_payload example_host [Piece_string ''bafkzcibvalid''] None =
     Inr ([\<lparr>data = [1, 2]\<rparr>], [\<lparr>pieceIndex = 0, metadata = []\<rparr>])"
  by (simp add: AddPieces_payload_def metadata_for_def bindE_def example_host_def)

theorem signAddPieces_metadata_length_witness:
  "AddPieces_payload example_host [Piece_string ''bafkzcibvalid''] None =
     Inr ([\<lparr>data = [1, 2]\<rparr>], [\<lparr>pieceIndex = 0, metadata = []\<rparr>]) \<and>
   map metadata [\<lparr>pieceIndex = 0, metadata = []\<rparr>] = [[]] \<and>
   [[], []] \<noteq> ([] :: MetadataEntry list list) \<and>
   length ([[], []] :: MetadataEntry list list) \<noteq> length [Piece_string ''bafkzcibvalid''] \<and>
   signAddPieces example_host example_wallet (Number_int 7) (BigInt_val 1)
     [Piece_string ''bafkzcibvalid''] (Some [[], []]) = (Inl InvalidArgument, [])"
  using signAddPieces_metadata_length
    [of "[Piece_string ''bafkzcibvalid'']" example_host "[\<lparr>data = [1, 2]\<rparr>]"
      "[\<lparr>pieceIndex = 0, metadata = []\<rparr>]" "[[], []]" example_wallet "Number_int 7"
      "BigInt_val 1"]
    example_payload_default
  by simp

text \<open>
  The claim as stated fails where the metadata argument is the empty array and there is
  a piece: the lengths differ and the call returns a signature.
\<close>

theorem signAddPieces_empty_metadata_counterexample:
  "length ([] :: MetadataEntry list list) \<noteq> length [Piece_string ''bafkzcibvalid''] \<and>
   fst (signAddPieces example_host example_wallet (Number_int 7) (BigInt_val 1)
          [Piece_string ''bafkzcibvalid''] (Some [])) =
     Inr (example_result ''signed by the key'' ''digest of AddPieces 7'')"
  by (simp add: signAddPieces_def AddPieces_payload_def metadata_for_def AddPieces_types_def
      sign_defs example_defs decimal.simps hex_digit_def)

text \<open>
  C10. A metadata argument that is the empty array passes the first statement like an
  omitted one, for any number of pieces: the metadata becomes one empty list per
  piece, building the payload does not throw \<open>InvalidArgument\<close>, and the payload and
  the whole call are those of the call without the argument.
\<close>

theorem signAddPieces_empty_metadata_is_default:
  "metadata_for (Some []) (length pieceDataArray) = Inr (replicate (length pieceDataArray) []) \<and>
   AddPieces_payload h pieceDataArray (Some []) \<noteq> Inl InvalidArgument \<and>
   AddPieces_payload h pieceDataArray (Some []) = AddPieces_payload h pieceDataArray None \<and>
   signAddPieces h this clientDataSetId firstPieceId pieceDataArray (Some [])
     = signAddPieces h this clientDataSetId firstPieceId pieceDataArray None"
proof -
  have "AddPieces_payload h pieceDataArray (Some []) \<noteq> Inl InvalidArgument"
    using formatPieces_Inl [of h pieceDataArray "replicate (length pieceDataArray) []" 0 "[]" "[]"
        InvalidArgument]
    by (auto simp: AddPieces_payload_def metadata_for_def bindE_def InvalidArgument_def
        InvalidPieceIdentifier_def)
  then show ?thesis
    by (simp add: signAddPieces_def AddPieces_payload_def metadata_for_def)
qed

text \<open>
  C6, as the code has it. When the metadata argument passes the first statement, a piece
  given as a string that \<open>asPieceCID\<close> does not parse makes the call throw
  \<open>InvalidPieceIdentifier\<close>, with no request for a signature made. When the metadata
  argument does not pass, the call has thrown \<open>InvalidArgument\<close> before it looks at a
  piece: see the counterexample.
\<close>

theorem signAddPieces_unparsable_piece:
  assumes "metadata_for metadata_arg (length pieceDataArray) = Inr md"
    and "Piece_string str \<in> set pieceDataArray"
    and "asPieceCID h str = None"
  shows "signAddPieces h this clientDataSetId firstPieceId pieceDataArray metadata_arg
           = (Inl InvalidPieceIdentifier, [])"
  using assms
  by (simp add: signAddPieces_def AddPieces_payload_def bindE_def bind_lift_Inl
      formatPieces_unparsable)

theorem signAddPieces_unparsable_piece_witness:
  "metadata_for None (length [Piece_string ''bafkzcibvalid'', Piece_string ''not a cid''])
     = Inr [[], []] \<and>
   asPieceCID example_host ''not a cid'' = None \<and>
   signAddPieces example_host example_browser (Number_int 7) (BigInt_val 1)
     [Piece_string ''bafkzcibvalid'', Piece_string ''not a cid''] None
     = (Inl InvalidPieceIdentifier, [])"
proof -
  have m: "metadata_for None (length [Piece_string ''bafkzcibvalid'', Piece_string ''not a cid''])
     = Inr [[], []]"
    by (simp add: metadata_for_def)
  have a: "asPieceCID example_host ''not a cid'' = None"
    by (simp add: example_host_def)
  have i: "Piece_string ''not a cid''
      \<in> set [Piece_string ''bafkzcibvalid'', Piece_string ''not a cid'']"
    by simp
  from signAddPieces_unparsable_piece [OF m i a] m a show ?thesis by blast
qed

theorem signAddPieces_unparsable_piece_counterexample:
  "asPieceCID example_host ''not a cid'' = None \<and>
   signAddPieces example_host example_wallet (Number_int 7) (BigInt_val 1)
     [Piece_string ''not a cid''] (Some [[], []]) = (Inl InvalidArgument, []) \<and>
   InvalidArgument \<noteq> InvalidPieceIdentifier"
  by (simp add: signAddPieces_def AddPieces_payload_def metadata_for_def bindE_def
      bind_lift_Inl example_host_def InvalidArgument_def InvalidPieceIdentifier_def)

section \<open>Properties of fetchExpiries\<close>

lemmas hash_defs =
  CREATE_DATA_SET_TYPEHASH_def ADD_PIECES_TYPEHASH_def SCHEDULE_PIECE_REMOVALS_TYPEHASH_def
  DELETE_DATA_SET_TYPEHASH_def ethers_id_def PDP_PERMISSIONS_def

text \<open>
  The four type hashes are the digests of the strings that \<open>getEIP712TypeString\<close>
  returns for the four operations, as the earlier version of the module computes them.
\<close>

lemma type_hashes_of_type_strings:
  "getEIP712TypeString ''CreateDataSet'' = Inr str \<Longrightarrow> CREATE_DATA_SET_TYPEHASH = ethers_id str"
  "getEIP712TypeString ''AddPieces'' = Inr str \<Longrightarrow> ADD_PIECES_TYPEHASH = ethers_id str"
  "getEIP712TypeString ''SchedulePieceRemovals'' = Inr str \<Longrightarrow>
     SCHEDULE_PIECE_REMOVALS_TYPEHASH = ethers_id str"
  "getEIP712TypeString ''DeleteDataSet'' = Inr str \<Longrightarrow> DELETE_DATA_SET_TYPEHASH = ethers_id str"
  by (auto simp: typeStrings_of_own_keys hash_defs)

lemma length_PDP_PERMISSIONS: "length PDP_PERMISSIONS = 4"
  by (simp add: PDP_PERMISSIONS_def)

lemma PDP_PERMISSIONS_key_inj:
  "i < 4 \<Longrightarrow> j < 4 \<Longrightarrow> PDP_PERMISSIONS_key i = PDP_PERMISSIONS_key j \<Longrightarrow> i = j"
proof -
  assume "i < 4" "j < 4"
  then have "i \<in> {0, 1, 2, 3}" "j \<in> {0, 1, 2, 3}" by auto
  moreover assume "PDP_PERMISSIONS_key i = PDP_PERMISSIONS_key j"
  ultimately show ?thesis
    by (auto simp: PDP_PERMISSIONS_key_def at_index_def hash_defs)
qed

subsection \<open>The steps of the decoding loop\<close>

lemma decodeResults_step:
  "i < n \<Longrightarrow> at_index results i = Some res \<Longrightarrow>
     decodeFunctionResult h (returnData res) = Inr t \<Longrightarrow>
     decodeResults h n results i exps =
       decodeResults h n results (i + 1) (exps(PDP_PERMISSIONS_key i \<mapsto> t))"
  by (subst decodeResults.simps) simp

lemma decodeResults_done: "\<not> i < n \<Longrightarrow> decodeResults h n results i exps = Inr exps"
  by (subst decodeResults.simps) simp

lemma decodeResults_undecodable:
  "i < n \<Longrightarrow> at_index results i = Some res \<Longrightarrow>
     decodeFunctionResult h (returnData res) = Inl e \<Longrightarrow>
     decodeResults h n results i exps = Inl e"
  by (subst decodeResults.simps) simp

text \<open>The loop never looks at \<open>success\<close>: it stops at the first return data that does
  not decode, with the error of the decoder.\<close>

lemma decodeResults_fails_at:
  assumes "k < n" and "at_index results k = Some res"
    and "decodeFunctionResult h (returnData res) = Inl e"
    and "\<forall>j. i \<le> j \<and> j < k \<longrightarrow>
           (\<exists>res' t. at_index results j = Some res' \<and>
              decodeFunctionResult h (returnData res') = Inr t)"
    and "i \<le> k"
  shows "decodeResults h n results i exps = Inl e"
  using assms
proof (induction h n results i exps rule: decodeResults.induct)
  case (1 h n results i exps)
  show ?case
  proof (cases "i = k")
    case True
    with 1 show ?thesis by (simp add: decodeResults_undecodable)
  next
    case False
    with 1 have lt: "i < k" by simp
    with 1(5) obtain res' t where
      r: "at_index results i = Some res'" "decodeFunctionResult h (returnData res') = Inr t"
      by blast
    have "decodeResults h n results (i + 1) (exps(PDP_PERMISSIONS_key i \<mapsto> t)) = Inl e"
      using 1 lt r by (intro "1.IH") auto
    with 1 lt r show ?thesis by (simp add: decodeResults_step)
  qed
qed

text \<open>
  Where every return data decodes and at most four permissions are asked for, the loop
  stores the \<open>i\<close>-th decoded value under the \<open>i\<close>-th entry of \<open>PDP_PERMISSIONS\<close>.
\<close>

lemma decodeResults_all:
  assumes "\<forall>j. i \<le> j \<and> j < n \<longrightarrow>
           (\<exists>res t. at_index results j = Some res \<and>
              decodeFunctionResult h (returnData res) = Inr t)"
    and "n \<le> 4"
  shows "\<exists>m. decodeResults h n results i exps = Inr m \<and>
           (\<forall>j res t. i \<le> j \<and> j < n \<and> at_index results j = Some res \<and>
                decodeFunctionResult h (returnData res) = Inr t \<longrightarrow>
              m (PDP_PERMISSIONS_key j) = Some t) \<and>
           (\<forall>j. j < i \<and> j < n \<longrightarrow> m (PDP_PERMISSIONS_key j) = exps (PDP_PERMISSIONS_key j))"
  using assms
proof (induction h n results i exps rule: decodeResults.induct)
  case (1 h n results i exps)
  show ?case
  proof (cases "i < n")
    case False
    then show ?thesis by (auto simp: decodeResults_done)
  next
    case True
    with 1(2) obtain res t where
      r: "at_index results i = Some res" "decodeFunctionResult h (returnData res) = Inr t"
      by blast
    have "\<forall>j. i + 1 \<le> j \<and> j < n \<longrightarrow>
           (\<exists>res t. at_index results j = Some res \<and>
              decodeFunctionResult h (returnData res) = Inr t)"
      using 1(2) by simp
    from "1.IH" [OF True r(1) r(2) this 1(3)] obtain m where
      m: "decodeResults h n results (i + 1) (exps(PDP_PERMISSIONS_key i \<mapsto> t)) = Inr m"
         "\<forall>j res t. i + 1 \<le> j \<and> j < n \<and> at_index results j = Some res \<and>
                decodeFunctionResult h (returnData res) = Inr t \<longrightarrow>
              m (PDP_PERMISSIONS_key j) = Some t"
         "\<forall>j. j < i + 1 \<and> j < n \<longrightarrow>
            m (PDP_PERMISSIONS_key j) =
              (exps(PDP_PERMISSIONS_key i \<mapsto> t)) (PDP_PERMISSIONS_key j)"
      by blast
    have eq: "decodeResults h n results i exps = Inr m"
      using True r m(1) by (simp add: decodeResults_step)
    have here: "m (PDP_PERMISSIONS_key i) = Some t"
      using m(3) True by simp
    have before: "m (PDP_PERMISSIONS_key j) = exps (PDP_PERMISSIONS_key j)"
      if "j < i" "j < n" for j
    proof -
      from that True 1(3) have "PDP_PERMISSIONS_key i \<noteq> PDP_PERMISSIONS_key j"
        using PDP_PERMISSIONS_key_inj [of i j] by auto
      with m(3) that show ?thesis by simp
    qed
    have after: "m (PDP_PERMISSIONS_key j) = Some t'"
      if "i \<le> j" "j < n" "at_index results j = Some res'"
        "decodeFunctionResult h (returnData res') = Inr t'" for j res' t'
    proof (cases "j = i")
      case True
      with that r here show ?thesis by simp
    next
      case False
      with that m(2) show ?thesis by simp
    qed
    from eq before after show ?thesis by blast
  qed
qed

text \<open>The loop reads \<open>returnData\<close> of each result and nothing else of it.\<close>

lemma decodeResults_ignores_success:
  "map returnData results = map returnData results' \<Longrightarrow>
     decodeResults h n results i exps = decodeResults h n results' i exps"
proof (induction h n results i exps rule: decodeResults.induct)
  case (1 h n results i exps)
  from "1.prems" have len: "length results = length results'"
    by (rule map_eq_imp_length_eq)
  show ?case
  proof (cases "i < n \<and> i < length results")
    case False
    with len show ?thesis
      by (subst decodeResults.simps, subst (2) decodeResults.simps)
        (auto simp: at_index_def)
  next
    case True
    with len "1.prems" have same: "returnData (results ! i) = returnData (results' ! i)"
      by (metis nth_map)
    show ?thesis
    proof (cases "decodeFunctionResult h (returnData (results ! i))")
      case (Inl e)
      with True len same show ?thesis
        by (subst decodeResults.simps, subst (2) decodeResults.simps)
          (simp add: at_index_def)
    next
      case (Inr expiry)
      with True have "decodeResults h n results (i + 1) (exps(PDP_PERMISSIONS_key i \<mapsto> expiry))
          = decodeResults h n results' (i + 1) (exps(PDP_PERMISSIONS_key i \<mapsto> expiry))"
        using "1.prems" by (intro "1.IH") (auto simp: at_index_def)
      with True len same Inr show ?thesis
        by (subst decodeResults.simps, subst (2) decodeResults.simps)
          (simp add: at_index_def)
    qed
  qed
qed

text \<open>Three lookups that return resolve to their values, in whatever order they settle.\<close>

lemma first_rejection_resolved:
  "first_rejection order [Inr x0, Inr x1, Inr x2] = None"
proof (induction order)
  case Nil
  then show ?case by simp
next
  case (Cons i order)
  have "i = 0 \<or> i = 1 \<or> i = 2 \<or> 3 \<le> i" by auto
  with Cons show ?case
    by (auto simp: at_index_def)
qed

lemma Promise_all3_resolved:
  "Promise_all3 order (Inr x0) (Inr x1) (Inr x2) = Inr (x0, x1, x2)"
proof -
  have "first_rejection (order @ [0, 1, 2]) [Inr x0, Inr x1, Inr x2 :: js_error + 'a] = None"
    by (rule first_rejection_resolved)
  then show ?thesis
    by (simp add: Promise_all3_def bindE_def)
qed

text \<open>
  What the code does for a list of at most four permissions whose sub-calls all return
  data that decodes: the refresh completes, and the timestamp of the \<open>i\<close>-th requested
  permission is stored under the \<open>i\<close>-th entry of \<open>PDP_PERMISSIONS\<close>. For the
  default list that entry is the permission itself.
\<close>

lemma fetchExpiries_all_decoded:
  assumes "getFilecoinNetworkType h = Inr network"
    and "owner_getAddress h = Inr ownerAddress"
    and "signer_getAddress h = Inr signerAddress"
    and "registry_getAddress h = Inr registryAddress"
    and "aggregate3 h network
           (calls_for ownerAddress signerAddress registryAddress permissions) = Inr results"
    and "length results = length permissions" and "length permissions \<le> 4"
    and "\<forall>i < length permissions.
           \<exists>t. decodeFunctionResult h (returnData (results ! i)) = Inr t"
  shows "\<exists>m. fetchExpiries h (Some permissions) = Inr m \<and>
           (\<forall>i t. i < length permissions \<and>
                decodeFunctionResult h (returnData (results ! i)) = Inr t \<longrightarrow>
              m (Key (PDP_PERMISSIONS ! i)) = Some t)"
proof -
  have "\<forall>j. 0 \<le> j \<and> j < length permissions \<longrightarrow>
           (\<exists>res t. at_index results j = Some res \<and>
              decodeFunctionResult h (returnData res) = Inr t)"
    using assms(6,8) by (simp add: at_index_def)
  from decodeResults_all [OF this assms(7), of Map.empty] obtain m where
    m: "decodeResults h (length permissions) results 0 Map.empty = Inr m"
       "\<forall>j res t. 0 \<le> j \<and> j < length permissions \<and> at_index results j = Some res \<and>
                decodeFunctionResult h (returnData res) = Inr t \<longrightarrow>
              m (PDP_PERMISSIONS_key j) = Some t"
    by blast
  have "fetchExpiries h (Some permissions) = Inr m"
    using assms(1-5) m(1) by (simp add: fetchExpiries_def bindE_def Promise_all3_resolved)
  moreover have "m (Key (PDP_PERMISSIONS ! i)) = Some t"
    if "i < length permissions" "decodeFunctionResult h (returnData (results ! i)) = Inr t"
    for i t
  proof -
    from that assms(6,7) have "PDP_PERMISSIONS_key i = Key (PDP_PERMISSIONS ! i)"
      by (simp add: PDP_PERMISSIONS_key_def at_index_def length_PDP_PERMISSIONS)
    moreover from that assms(6) m(2) have "m (PDP_PERMISSIONS_key i) = Some t"
      by (simp add: at_index_def)
    ultimately show ?thesis by simp
  qed
  ultimately show ?thesis by blast
qed

subsection \<open>A sub-call that the registry marks as failed\<close>

text \<open>
  Every call goes out with \<open>allowFailure: true\<close>, so the batch returns where a sub-call
  reverts; the loop then decodes the return data of the failed entry like any other.
  Where that data does not decode, the error of the decoder ends the refresh.
\<close>

lemma fetchExpiries_undecodable_entry:
  assumes "getFilecoinNetworkType h = Inr network"
    and "owner_getAddress h = Inr ownerAddress"
    and "signer_getAddress h = Inr signerAddress"
    and "registry_getAddress h = Inr registryAddress"
    and "aggregate3 h network
           (calls_for ownerAddress signerAddress registryAddress PDP_PERMISSIONS) = Inr results"
    and "length results = 4" and "k < 4"
    and "decodeFunctionResult h (returnData (results ! k)) = Inl e"
    and "\<forall>i < k. \<exists>t. decodeFunctionResult h (returnData (results ! i)) = Inr t"
  shows "fetchExpiries h None = Inl e"
proof -
  have "decodeResults h 4 results 0 Map.empty = Inl e"
    using assms(6-9)
    by (intro decodeResults_fails_at [where k = k and res = "results ! k"])
      (auto simp: at_index_def)
  then show ?thesis
    using assms(1-5)
    by (simp add: fetchExpiries_def bindE_def length_PDP_PERMISSIONS Promise_all3_resolved)
qed

lemma decode_encode_examples:
  "decode_uint256 (encode_uint256 77) = Inr 77"
  "decode_uint256 (encode_uint256 1001) = Inr 1001"
  "decode_uint256 (encode_uint256 1002) = Inr 1002"
  "decode_uint256 (encode_uint256 1003) = Inr 1003"
  "decode_uint256 (encode_uint256 1004) = Inr 1004"
  "decode_uint256 [] = Inl (Error ''could not decode result data'')"
  by (simp_all add: decode_uint256_def encode_uint256_def upt_rec)

lemma example_expiries:
  "example_expiry CREATE_DATA_SET_TYPEHASH = 1001"
  "example_expiry ADD_PIECES_TYPEHASH = 1002"
  "example_expiry SCHEDULE_PIECE_REMOVALS_TYPEHASH = 1003"
  "example_expiry DELETE_DATA_SET_TYPEHASH = 1004"
  by (simp_all add: example_expiry_def hash_defs)

text \<open>
  C3. The claim has a refresh with one failed sub-call complete, with unknown for that
  permission and the timestamps of the other three. The code does neither. On a
  registry whose sub-call for \<open>AddPieces\<close> alone is marked as failed and returns no
  data, the refresh throws the error of the decoder and returns no mapping. On one
  whose failed sub-call returns 32 bytes of revert data, the refresh completes and
  stores those bytes as the timestamp of the permission.
\<close>

theorem fetchExpiries_failed_subcall_not_unknown:
  "aggregate3 failing_registry ''calibration''
     (calls_for ''0xowner'' ''0xsigner'' ''0xregistry'' PDP_PERMISSIONS)
     = Inr [\<lparr>success = True, returnData = encode_uint256 1001\<rparr>,
            \<lparr>success = False, returnData = []\<rparr>,
            \<lparr>success = True, returnData = encode_uint256 1003\<rparr>,
            \<lparr>success = True, returnData = encode_uint256 1004\<rparr>] \<and>
   fetchExpiries failing_registry None = Inl (Error ''could not decode result data'') \<and>
   aggregate3 reverting_registry ''calibration''
     (calls_for ''0xowner'' ''0xsigner'' ''0xregistry'' PDP_PERMISSIONS)
     = Inr [\<lparr>success = True, returnData = encode_uint256 1001\<rparr>,
            \<lparr>success = False, returnData = encode_uint256 77\<rparr>,
            \<lparr>success = True, returnData = encode_uint256 1003\<rparr>,
            \<lparr>success = True, returnData = encode_uint256 1004\<rparr>] \<and>
   fetchExpiries reverting_registry None =
     Inr [Key CREATE_DATA_SET_TYPEHASH \<mapsto> 1001, Key ADD_PIECES_TYPEHASH \<mapsto> 77,
          Key SCHEDULE_PIECE_REMOVALS_TYPEHASH \<mapsto> 1003, Key DELETE_DATA_SET_TYPEHASH \<mapsto> 1004]"
proof -
  have "aggregate3 failing_registry ''calibration''
     (calls_for ''0xowner'' ''0xsigner'' ''0xregistry'' PDP_PERMISSIONS)
     = Inr [\<lparr>success = True, returnData = encode_uint256 1001\<rparr>,
            \<lparr>success = False, returnData = []\<rparr>,
            \<lparr>success = True, returnData = encode_uint256 1003\<rparr>,
            \<lparr>success = True, returnData = encode_uint256 1004\<rparr>]"
    by (simp add: calls_for_def failing_registry_def example_expiries PDP_PERMISSIONS_def)
      ((simp add: hash_defs)?)
  moreover have "fetchExpiries failing_registry None
      = Inl (Error ''could not decode result data'')"
    by (simp add: fetchExpiries_def bindE_def calls_for_def failing_registry_def at_index_def
        example_expiries decode_encode_examples decodeResults.simps PDP_PERMISSIONS_def
        Promise_all3_resolved)
      ((simp add: hash_defs)?)
  moreover have "aggregate3 reverting_registry ''calibration''
     (calls_for ''0xowner'' ''0xsigner'' ''0xregistry'' PDP_PERMISSIONS)
     = Inr [\<lparr>success = True, returnData = encode_uint256 1001\<rparr>,
            \<lparr>success = False, returnData = encode_uint256 77\<rparr>,
            \<lparr>success = True, returnData = encode_uint256 1003\<rparr>,
            \<lparr>success = True, returnData = encode_uint256 1004\<rparr>]"
    by (simp add: calls_for_def reverting_registry_def example_expiries PDP_PERMISSIONS_def)
      ((simp add: hash_defs)?)
  moreover have "fetchExpiries reverting_registry None =
     Inr [Key CREATE_DATA_SET_TYPEHASH \<mapsto> 1001, Key ADD_PIECES_TYPEHASH \<mapsto> 77,
          Key SCHEDULE_PIECE_REMOVALS_TYPEHASH \<mapsto> 1003, Key DELETE_DATA_SET_TYPEHASH \<mapsto> 1004]"
    by (simp add: fetchExpiries_def bindE_def calls_for_def reverting_registry_def at_index_def
        PDP_PERMISSIONS_key_def example_expiries decode_encode_examples decodeResults.simps
        PDP_PERMISSIONS_def Promise_all3_resolved)
      ((simp add: hash_defs)?)
  ultimately show ?thesis by (intro conjI)
qed

subsection \<open>A list of permissions that is not the default\<close>

text \<open>
  C4. Asked for the one permission \<open>ADD_PIECES_TYPEHASH\<close>, on a registry that
  answers every sub-call, \<open>fetchExpiries\<close> issues the sub-call for \<open>AddPieces\<close> and
  stores its timestamp under \<open>PDP_PERMISSIONS[0]\<close>, the key of \<open>CreateDataSet\<close>: the
  mapping has no entry for the permission that was asked for.
\<close>

theorem fetchExpiries_subset_keyed_by_position:
  "calls_for ''0xowner'' ''0xsigner'' ''0xregistry'' [ADD_PIECES_TYPEHASH] =
     [\<lparr>target = ''0xregistry'', allowFailure = True,
       callData = authorizationExpiry_call ''0xowner'' ''0xsigner'' ADD_PIECES_TYPEHASH\<rparr>] \<and>
   example_expiry ADD_PIECES_TYPEHASH = 1002 \<and>
   fetchExpiries example_registry (Some [ADD_PIECES_TYPEHASH]) =
     Inr [Key CREATE_DATA_SET_TYPEHASH \<mapsto> 1002] \<and>
   [Key CREATE_DATA_SET_TYPEHASH \<mapsto> (1002 :: int)] (Key ADD_PIECES_TYPEHASH) = None"
  by (simp add: fetchExpiries_def bindE_def calls_for_def example_registry_def at_index_def
      PDP_PERMISSIONS_key_def example_expiries decode_encode_examples decodeResults.simps
      length_PDP_PERMISSIONS Promise_all3_resolved)
    (simp add: hash_defs)

end
